theory Spec2Isabelle
  imports
    Complex_Main
    "HOL-Library.Sublist"
    "HOL-Library.Multiset"
    "HOL-Library.Char_ord"
    "HOL-Library.List_Lexorder"
begin

section \<open>JavaScript primitives used by the hooks\<close>

text \<open>
  Strings are lists of code units; the model covers the code units below 256, which is
  what \<^typ>\<open>char\<close> holds. The relational operators of JavaScript on strings compare
  code units lexicographically, which is the order of \<^theory_text>\<open>List_Lexorder\<close> over
  \<^theory_text>\<open>Char_ord\<close>.
\<close>

text \<open>\<^verbatim>\<open>String.prototype.trim\<close>: white space and line terminators (tab, LF, VT, FF, CR,
  space, no-break space) are removed at both ends.\<close>

definition is_space :: "char \<Rightarrow> bool" where
  "is_space c = (of_char c \<in> {9, 10, 11, 12, 13, 32, 160 :: nat})"

definition trim :: "string \<Rightarrow> string" where
  "trim s = rev (dropWhile is_space (rev (dropWhile is_space s)))"

text \<open>\<^verbatim>\<open>s.startsWith(k)\<close> and \<^verbatim>\<open>s.includes(k)\<close>.\<close>

fun startsWith :: "string \<Rightarrow> string \<Rightarrow> bool" where
  "startsWith s [] = True"
| "startsWith [] (k # ks) = False"
| "startsWith (c # s) (k # ks) = (c = k \<and> startsWith s ks)"

fun includes_str :: "string \<Rightarrow> string \<Rightarrow> bool" where
  "includes_str [] k = (k = [])"
| "includes_str (c # s) k = (startsWith (c # s) k \<or> includes_str s k)"

text \<open>\<^verbatim>\<open>Array.prototype.find\<close>: the first element satisfying the predicate, or undefined.\<close>

fun array_find :: "('a \<Rightarrow> bool) \<Rightarrow> 'a list \<Rightarrow> 'a option" where
  "array_find P [] = None"
| "array_find P (x # xs) = (if P x then Some x else array_find P xs)"

text \<open>\<^verbatim>\<open>a ?? b\<close> on a value that may be undefined.\<close>

definition nullish :: "'a option \<Rightarrow> 'a option \<Rightarrow> 'a option" where
  "nullish a b = (case a of Some v \<Rightarrow> Some v | None \<Rightarrow> b)"

text \<open>Truthiness of a string that may be null or undefined: defined and not empty.\<close>

definition truthy :: "string option \<Rightarrow> bool" where
  "truthy v = (case v of None \<Rightarrow> False | Some s \<Rightarrow> s \<noteq> [])"

text \<open>\<^verbatim>\<open>a || b\<close> on strings that may be null: the left operand when truthy, else the
  right one.\<close>

definition or_else :: "string option \<Rightarrow> string option \<Rightarrow> string option" where
  "or_else a b = (if truthy a then a else b)"

definition or_string :: "string option \<Rightarrow> string \<Rightarrow> string" where
  "or_string a b = (case a of None \<Rightarrow> b | Some s \<Rightarrow> if s \<noteq> [] then s else b)"

text \<open>A JavaScript number: a finite value, NaN, or an infinity.\<close>

datatype number = Finite real | NaN | PosInfinity | NegInfinity

definition isFinite :: "number \<Rightarrow> bool" where
  "isFinite n = (case n of Finite _ \<Rightarrow> True | _ \<Rightarrow> False)"

text \<open>
  \<^verbatim>\<open>a - b\<close> on numbers. On finite operands the model subtracts exactly; the rounded
  difference of two doubles has the sign of the exact one (it is zero only for equal
  operands, and an overflow keeps the sign), and only the sign is read below.
\<close>

fun number_minus :: "number \<Rightarrow> number \<Rightarrow> number" where
  "number_minus (Finite a) (Finite b) = Finite (a - b)"
| "number_minus NaN _ = NaN"
| "number_minus _ NaN = NaN"
| "number_minus PosInfinity PosInfinity = NaN"
| "number_minus NegInfinity NegInfinity = NaN"
| "number_minus PosInfinity _ = PosInfinity"
| "number_minus NegInfinity _ = NegInfinity"
| "number_minus (Finite a) PosInfinity = NegInfinity"
| "number_minus (Finite a) NegInfinity = PosInfinity"

definition is_positive :: "number \<Rightarrow> bool" where
  "is_positive v = (case v of Finite r \<Rightarrow> 0 < r | PosInfinity \<Rightarrow> True | _ \<Rightarrow> False)"

text \<open>
  \<^verbatim>\<open>Array.prototype.sort(cmp)\<close> is stable (ECMAScript 2019): an element moves behind
  another one only when the comparator's value for the pair is positive (NaN counts as
  zero). Insertion from the right end keeps an element in front of the later elements
  it does not compare greater than. For a consistent comparator the result does
  not depend on the sorting algorithm.
\<close>

fun sort_insert :: "('a \<Rightarrow> 'a \<Rightarrow> number) \<Rightarrow> 'a \<Rightarrow> 'a list \<Rightarrow> 'a list" where
  "sort_insert cmp x [] = [x]"
| "sort_insert cmp x (y # ys) =
     (if is_positive (cmp x y) then y # sort_insert cmp x ys else x # y # ys)"

fun array_sort :: "('a \<Rightarrow> 'a \<Rightarrow> number) \<Rightarrow> 'a list \<Rightarrow> 'a list" where
  "array_sort cmp [] = []"
| "array_sort cmp (x # xs) = sort_insert cmp x (array_sort cmp xs)"

section \<open>Data model\<close>

record Station =
  station_id :: string
  latitude :: "number option"
  longitude :: "number option"
  basin_name :: "string option"
  river_name :: "string option"
  station_name :: "string option"
  station_name2 :: "string option"
  station_name3 :: "string option"
  description :: "string option"
  has_data :: int

datatype ActiveTabId = basin | station

type_synonym ActiveTab = "ActiveTabId option"

record BasinTabData =
  basinName :: string
  stationCount :: nat

datatype SuggestionType = Basin | Station

record SearchSuggestion =
  sg_value :: string
  sg_type :: SuggestionType

record SelectedSearchItem =
  label :: string
  item_type :: SuggestionType

text \<open>Calls made on the Leaflet map; the map itself is outside the model.\<close>

datatype map_call = FlyTo Station | FitBounds "Station list" | ClosePopup

text \<open>
  The React state of the map page and of its hooks \<^verbatim>\<open>useMapState\<close> and
  \<^verbatim>\<open>useStationSearch\<close>. A handler reads the state of the render it was created in and
  queues updates; the model takes that state and returns the next one.
\<close>

record page_state =
  basinTab :: "BasinTabData option"
  stationTab :: "Station option"
  activeTab :: ActiveTab
  mapInstance :: bool
  selectedStationId :: "string option"
  previewStationId :: "string option"
  searchText :: string
  searchHint :: string
  selectedSearchItem :: "SelectedSearchItem option"
  mapCalls :: "map_call list"

section \<open>useMapState\<close>

definition closePopup :: "page_state \<Rightarrow> page_state" where
  "closePopup st = (if mapInstance st then st\<lparr>mapCalls := mapCalls st @ [ClosePopup]\<rparr> else st)"

definition clearPreview :: "page_state \<Rightarrow> page_state" where
  "clearPreview st = st\<lparr>previewStationId := None\<rparr>"

definition commitStationSelection :: "Station \<Rightarrow> page_state \<Rightarrow> page_state" where
  "commitStationSelection s st =
     (closePopup (st\<lparr>selectedStationId := Some (station_id s), stationTab := Some s,
                      previewStationId := None\<rparr>))\<lparr>activeTab := Some station\<rparr>"

definition handleCloseStationTab :: "page_state \<Rightarrow> page_state" where
  "handleCloseStationTab st =
     closePopup (st\<lparr>stationTab := None, selectedStationId := None, previewStationId := None,
                     activeTab := (if basinTab st \<noteq> None then Some basin else None)\<rparr>)"

definition handleCloseBasinTab :: "page_state \<Rightarrow> page_state" where
  "handleCloseBasinTab st =
     (let nextStationTab = stationTab st;
          st1 = st\<lparr>basinTab := None, previewStationId := None\<rparr>
      in if activeTab st = Some basin then
           (case nextStationTab of
              Some s \<Rightarrow> st1\<lparr>activeTab := Some station, selectedStationId := Some (station_id s)\<rparr>
            | None \<Rightarrow> closePopup (st1\<lparr>activeTab := None, selectedStationId := None\<rparr>))
         else st1)"

section \<open>useStationSearch\<close>

record BasinSearchIndexItem =
  name :: string
  normalizedName :: string

record StationSearchIndexItem =
  ix_station :: Station
  names :: "string list"

text \<open>
  The parameters of the hook. \<open>normalizeText\<close> is imported from \<^verbatim>\<open>mapUtils\<close>, and
  \<open>localeCompare\<close> is the collation of the platform; both are parameters of the model.
  The state setters and \<open>mapInstance\<close> are the fields of \<^typ>\<open>page_state\<close>.
\<close>

record UseStationSearchParams =
  stations :: "Station list"
  basinGroups :: "string \<rightharpoonup> Station list"
  basinSearchIndex :: "BasinSearchIndexItem list"
  stationSearchIndex :: "StationSearchIndexItem list"
  noMatchHint :: string
  getDisplayName :: "Station \<Rightarrow> string"
  normalizeText :: "string \<Rightarrow> string"
  localeCompare :: "string \<Rightarrow> string \<Rightarrow> number"

text \<open>\<open>zoomToStations\<close>, as the map page defines it and passes it to the hook.\<close>

definition zoomToStations :: "Station list \<Rightarrow> page_state \<Rightarrow> page_state" where
  "zoomToStations targetStations st =
     (if \<not> mapInstance st \<or> targetStations = [] then st
      else (case targetStations of
              [target] \<Rightarrow> st\<lparr>mapCalls := mapCalls st @ [FlyTo target]\<rparr>
            | _ \<Rightarrow> st\<lparr>mapCalls := mapCalls st @ [FitBounds targetStations]\<rparr>))"

definition basinSuggestions :: "UseStationSearchParams \<Rightarrow> string \<Rightarrow> string list" where
  "basinSuggestions p text =
     (let keyword = normalizeText p text
      in if keyword = [] then []
         else take 8 (array_sort (localeCompare p)
                (map name (filter (\<lambda>e. startsWith (normalizedName e) keyword)
                   (basinSearchIndex p)))))"

text \<open>\<^verbatim>\<open>Set.prototype.add\<close> on a set kept in insertion order.\<close>

definition set_add :: "'a list \<Rightarrow> 'a \<Rightarrow> 'a list" where
  "set_add unique x = (if x \<in> set unique then unique else unique @ [x])"

text \<open>The body of the \<^verbatim>\<open>forEach\<close> of \<open>stationNameSuggestions\<close>.\<close>

definition collect_name :: "UseStationSearchParams \<Rightarrow> string \<Rightarrow> string list \<Rightarrow> Station \<Rightarrow> string list" where
  "collect_name p keyword unique s =
     (case station_name s of
        None \<Rightarrow> unique
      | Some raw \<Rightarrow>
          (let nm = trim raw
           in if nm = [] then unique
              else if startsWith (normalizeText p nm) keyword then set_add unique nm
              else unique))"

definition stationNameSuggestions :: "UseStationSearchParams \<Rightarrow> string \<Rightarrow> string list" where
  "stationNameSuggestions p text =
     (let keyword = normalizeText p text
      in if keyword = [] then []
         else take 8 (array_sort (localeCompare p)
                (foldl (collect_name p keyword) [] (stations p))))"

definition searchSuggestions :: "UseStationSearchParams \<Rightarrow> string \<Rightarrow> SearchSuggestion list" where
  "searchSuggestions p text =
     map (\<lambda>v. \<lparr>sg_value = v, sg_type = Basin\<rparr>) (basinSuggestions p text)
     @ map (\<lambda>v. \<lparr>sg_value = v, sg_type = Station\<rparr>) (stationNameSuggestions p text)"

definition searchHintText :: "UseStationSearchParams \<Rightarrow> page_state \<Rightarrow> string" where
  "searchHintText p st =
     (if searchHint st \<noteq> [] \<and> searchHint st \<noteq> noMatchHint p then searchHint st
      else if trim (searchText st) = [] then []
      else if length (searchSuggestions p (searchText st)) > 0 then []
      else noMatchHint p)"

text \<open>The basin looked up by \<open>performSearch\<close>: three \<^verbatim>\<open>find\<close> calls joined by \<^verbatim>\<open>??\<close>.\<close>

definition findBasin :: "BasinSearchIndexItem list \<Rightarrow> string \<Rightarrow> string option" where
  "findBasin ix normalizedKeyword =
     nullish (map_option name (array_find (\<lambda>e. normalizedName e = normalizedKeyword) ix))
       (nullish (map_option name (array_find (\<lambda>e. startsWith (normalizedName e) normalizedKeyword) ix))
          (map_option name (array_find (\<lambda>e. includes_str (normalizedName e) normalizedKeyword) ix)))"

definition findStation :: "StationSearchIndexItem list \<Rightarrow> string \<Rightarrow> Station option" where
  "findStation ix normalizedKeyword =
     map_option ix_station
       (array_find (\<lambda>e. list_ex (\<lambda>n. n = normalizedKeyword \<or> includes_str n normalizedKeyword) (names e)) ix)"

text \<open>Lines 167 to 185 of the hook: the station stage and the no-match exit.\<close>

definition searchStations :: "UseStationSearchParams \<Rightarrow> string \<Rightarrow> page_state \<Rightarrow> bool \<times> page_state" where
  "searchStations p normalizedKeyword st =
     (case findStation (stationSearchIndex p) normalizedKeyword of
        Some stationMatch \<Rightarrow>
          (let st1 = zoomToStations [stationMatch] st;
               st2 = st1\<lparr>searchHint := [],
                         selectedSearchItem := Some
                           \<lparr>label = or_string (station_name stationMatch) (getDisplayName p stationMatch),
                            item_type = Station\<rparr>\<rparr>
           in (True, commitStationSelection stationMatch st2))
      | None \<Rightarrow>
          (False, (clearPreview (st\<lparr>selectedSearchItem := None\<rparr>))\<lparr>searchHint := noMatchHint p\<rparr>))"

text \<open>Lines 153 to 164 of the hook: a basin was found.\<close>

definition openBasin :: "UseStationSearchParams \<Rightarrow> string \<Rightarrow> page_state \<Rightarrow> bool \<times> page_state" where
  "openBasin p b st =
     (let matched = (case basinGroups p b of Some l \<Rightarrow> l | None \<Rightarrow> []);
          st1 = zoomToStations matched st;
          st2 = clearPreview (st1\<lparr>searchHint := []\<rparr>);
          st3 = st2\<lparr>selectedSearchItem := Some \<lparr>label = b, item_type = Basin\<rparr>,
                    basinTab := Some \<lparr>basinName = b, stationCount = length matched\<rparr>,
                    activeTab := Some basin\<rparr>
      in (True, closePopup st3))"

definition performSearch :: "UseStationSearchParams \<Rightarrow> string \<Rightarrow> page_state \<Rightarrow> bool \<times> page_state" where
  "performSearch p rawKeyword st =
     (let keyword = trim rawKeyword
      in if keyword = [] then
           (False, (clearPreview (st\<lparr>selectedSearchItem := None\<rparr>))
                     \<lparr>searchHint := ''Please enter a basin / station name.''\<rparr>)
         else if \<not> mapInstance st then
           (False, (clearPreview (st\<lparr>selectedSearchItem := None\<rparr>))
                     \<lparr>searchHint := ''Map is not ready yet. Please try again shortly.''\<rparr>)
         else
           (let normalizedKeyword = normalizeText p keyword
            in case findBasin (basinSearchIndex p) normalizedKeyword of
                 Some b \<Rightarrow>
                   (if b \<noteq> [] then openBasin p b st
                    else searchStations p normalizedKeyword st)
               | None \<Rightarrow> searchStations p normalizedKeyword st))"

section \<open>The indexes built by the map page\<close>

text \<open>
  \<open>basinGroups\<close> is a \<^verbatim>\<open>Map\<close> keyed by the trimmed basin name; its keys are kept in the
  order of their first insertion. Here it is an association list in that order.
\<close>

fun group_add :: "(string \<times> Station list) list \<Rightarrow> string \<Rightarrow> Station \<Rightarrow> (string \<times> Station list) list" where
  "group_add [] k s = [(k, [s])]"
| "group_add ((k', l) # g) k s =
     (if k' = k then (k', l @ [s]) # g else (k', l) # group_add g k s)"

definition group_station :: "(string \<times> Station list) list \<Rightarrow> Station \<Rightarrow> (string \<times> Station list) list" where
  "group_station groups s =
     (case basin_name s of
        None \<Rightarrow> groups
      | Some raw \<Rightarrow> (let nm = trim raw in if nm = [] then groups else group_add groups nm s))"

definition build_basinGroups :: "Station list \<Rightarrow> (string \<times> Station list) list" where
  "build_basinGroups sts = foldl group_station [] sts"

text \<open>On the map page \<open>normalizeText\<close> is also applied to a name that is null.\<close>

definition build_basinSearchIndex ::
  "(string option \<Rightarrow> string) \<Rightarrow> (string \<times> Station list) list \<Rightarrow> BasinSearchIndexItem list" where
  "build_basinSearchIndex nt groups =
     map (\<lambda>(nm, _). \<lparr>name = nm, normalizedName = nt (Some nm)\<rparr>) groups"

definition build_stationSearchIndex ::
  "(string option \<Rightarrow> string) \<Rightarrow> Station list \<Rightarrow> StationSearchIndexItem list" where
  "build_stationSearchIndex nt sts =
     map (\<lambda>s. \<lparr>ix_station = s,
               names = filter (\<lambda>n. n \<noteq> [])
                         (map nt [station_name s, station_name2 s, station_name3 s])\<rparr>) sts"

text \<open>The no-match hint that the map page passes to \<^verbatim>\<open>useStationSearch\<close>.\<close>

definition LeafletMap_noMatchHint :: string where
  "LeafletMap_noMatchHint = ''No results matched. Try a more complete name.''"

section \<open>useStationEvents\<close>

datatype ChartPresetId = timeline_all | seasonal_frequency | peak_distribution

record StationEventSummary =
  totalEvents :: int
  matchedEvents :: int
  firstStartTime :: "string option"
  lastEndTime :: "string option"
  minPeakTime :: "string option"
  maxPeakTime :: "string option"
  maxPeakValue :: "number option"
  avgPeakValue :: "number option"
  avgRiseTime :: "number option"
  avgFallTime :: "number option"

record StationMatchedPoint =
  point_id :: int
  peak_time :: string
  peak_value :: number
  peak_time_str :: "string option"

record StationEventsApiResponse =
  summary :: StationEventSummary
  matchedSeries :: "StationMatchedPoint list option"

record MonthlyFrequencyPoint =
  month :: int
  count :: int

record PeakDistributionPoint =
  rank :: int
  dist_peak_value :: number

record date_range =
  range_start :: string
  range_end :: string

text \<open>The two dictionaries of the hook, keyed by the tab key.\<close>

record events_state =
  peakDateRangeByTab :: "string \<rightharpoonup> date_range"
  selectedPresetByTab :: "string \<rightharpoonup> ChartPresetId option"

definition toDateOnly :: "string option \<Rightarrow> string option" where
  "toDateOnly v = (case v of None \<Rightarrow> None | Some s \<Rightarrow> if s = [] then None else Some (take 10 s))"

definition currentStation :: "page_state \<Rightarrow> Station option" where
  "currentStation pg = (if activeTab pg = Some station then stationTab pg else None)"

definition currentBasin :: "page_state \<Rightarrow> string option" where
  "currentBasin pg = (if activeTab pg = Some basin then map_option basinName (basinTab pg) else None)"

definition activeTabKey :: "page_state \<Rightarrow> string option" where
  "activeTabKey pg =
     (case currentStation pg of
        Some s \<Rightarrow> Some (''s:'' @ station_id s)
      | None \<Rightarrow> (case currentBasin pg of
                   None \<Rightarrow> None
                 | Some b \<Rightarrow> if b \<noteq> [] then Some (''b:'' @ b) else None))"

definition currentTabDateRange :: "page_state \<Rightarrow> events_state \<Rightarrow> date_range option" where
  "currentTabDateRange pg es =
     (case activeTabKey pg of None \<Rightarrow> None | Some k \<Rightarrow> peakDateRangeByTab es k)"

definition peakStartDate :: "page_state \<Rightarrow> events_state \<Rightarrow> string" where
  "peakStartDate pg es = (case currentTabDateRange pg es of None \<Rightarrow> [] | Some r \<Rightarrow> range_start r)"

definition peakEndDate :: "page_state \<Rightarrow> events_state \<Rightarrow> string" where
  "peakEndDate pg es = (case currentTabDateRange pg es of None \<Rightarrow> [] | Some r \<Rightarrow> range_end r)"

definition selectedPreset :: "page_state \<Rightarrow> events_state \<Rightarrow> ChartPresetId option" where
  "selectedPreset pg es =
     (case activeTabKey pg of
        None \<Rightarrow> None
      | Some k \<Rightarrow> (case selectedPresetByTab es k of None \<Rightarrow> None | Some v \<Rightarrow> v))"

text \<open>The base path; \<^verbatim>\<open>encodeURIComponent\<close> is a parameter.\<close>

definition eventsBasePath :: "(string \<Rightarrow> string) \<Rightarrow> page_state \<Rightarrow> string option" where
  "eventsBasePath encodeURIComponent pg =
     (case currentStation pg of
        Some s \<Rightarrow> Some (''/api/stations/'' @ station_id s @ ''/events'')
      | None \<Rightarrow> (case currentBasin pg of
                   None \<Rightarrow> None
                 | Some b \<Rightarrow> if b \<noteq> [] then Some (''/api/basins/'' @ encodeURIComponent b @ ''/events'')
                             else None))"

definition minPeakDate :: "StationEventsApiResponse option \<Rightarrow> string option" where
  "minPeakDate summaryData =
     toDateOnly (case summaryData of None \<Rightarrow> None | Some d \<Rightarrow> minPeakTime (summary d))"

definition maxPeakDate :: "StationEventsApiResponse option \<Rightarrow> string option" where
  "maxPeakDate summaryData =
     toDateOnly (case summaryData of None \<Rightarrow> None | Some d \<Rightarrow> maxPeakTime (summary d))"

definition rangeStartDate :: "page_state \<Rightarrow> events_state \<Rightarrow> StationEventsApiResponse option \<Rightarrow> string option" where
  "rangeStartDate pg es summaryData = or_else (Some (peakStartDate pg es)) (minPeakDate summaryData)"

definition rangeEndDate :: "page_state \<Rightarrow> events_state \<Rightarrow> StationEventsApiResponse option \<Rightarrow> string option" where
  "rangeEndDate pg es summaryData = or_else (Some (peakEndDate pg es)) (maxPeakDate summaryData)"

definition hasDateFilterChanged :: "page_state \<Rightarrow> events_state \<Rightarrow> StationEventsApiResponse option \<Rightarrow> bool" where
  "hasDateFilterChanged pg es summaryData =
     ((truthy (minPeakDate summaryData) \<and> truthy (rangeStartDate pg es summaryData)
         \<and> rangeStartDate pg es summaryData \<noteq> minPeakDate summaryData)
      \<or> (truthy (maxPeakDate summaryData) \<and> truthy (rangeEndDate pg es summaryData)
         \<and> rangeEndDate pg es summaryData \<noteq> maxPeakDate summaryData))"

definition shouldFetchRangeData :: "page_state \<Rightarrow> events_state \<Rightarrow> StationEventsApiResponse option \<Rightarrow> bool" where
  "shouldFetchRangeData pg es summaryData =
     (selectedPreset pg es \<noteq> None \<or> hasDateFilterChanged pg es summaryData)"

text \<open>
  A request URL: the base path and the entries of its \<^verbatim>\<open>URLSearchParams\<close>, in order. The
  serialisation of the parameters into the query string is not modelled.
\<close>

record request_url =
  url_path :: string
  url_query :: "(string \<times> string) list"

text \<open>\<^verbatim>\<open>URLSearchParams.prototype.set\<close>: replaces the value of the first entry named
  \<open>k\<close> and drops later entries of that name, or appends a new entry.\<close>

fun query_set :: "(string \<times> string) list \<Rightarrow> string \<Rightarrow> string \<Rightarrow> (string \<times> string) list" where
  "query_set [] k v = [(k, v)]"
| "query_set ((k', v') # q) k v =
     (if k' = k then (k, v) # filter (\<lambda>e. fst e \<noteq> k) q else (k', v') # query_set q k v)"

definition rangeRequestUrl ::
  "(string \<Rightarrow> string) \<Rightarrow> page_state \<Rightarrow> events_state \<Rightarrow> StationEventsApiResponse option
     \<Rightarrow> request_url option" where
  "rangeRequestUrl enc pg es summaryData =
     (case (eventsBasePath enc pg, rangeStartDate pg es summaryData, rangeEndDate pg es summaryData) of
        (Some base, Some rs, Some re) \<Rightarrow>
          (if base = [] \<or> rs = [] \<or> re = [] \<or> \<not> shouldFetchRangeData pg es summaryData then None
           else
             (let query = [(''includeRecent'', ''0''), (''peakStart'', rs), (''peakEnd'', re)];
                  query' = (if selectedPreset pg es \<noteq> None
                            then query_set query ''includeMatchedSeries'' ''1'' else query)
              in Some \<lparr>url_path = base, url_query = query'\<rparr>))
      | _ \<Rightarrow> None)"

definition matchedSeries_of :: "StationEventsApiResponse option \<Rightarrow> StationMatchedPoint list" where
  "matchedSeries_of rangeData =
     (case rangeData of None \<Rightarrow> [] | Some d \<Rightarrow> (case matchedSeries d of None \<Rightarrow> [] | Some l \<Rightarrow> l))"

definition chartPoints :: "StationEventsApiResponse option \<Rightarrow> StationMatchedPoint list" where
  "chartPoints rangeData = matchedSeries_of rangeData"

subsection \<open>The monthly histogram\<close>

text \<open>
  \<^verbatim>\<open>Date.parse\<close> gives NaN (here \<open>None\<close>) or a time value, a whole number of
  milliseconds; \<^verbatim>\<open>getMonth\<close> gives the month index of a time value in the local time
  zone. Both are parameters. Reading \<^verbatim>\<open>monthCounts[month].count\<close> outside the array is a
  TypeError.
\<close>

datatype js_error = TypeError

definition initial_monthCounts :: "MonthlyFrequencyPoint list" where
  "initial_monthCounts = map (\<lambda>monthIndex. \<lparr>month = int monthIndex + 1, count = 0\<rparr>) [0..<12]"

definition count_point ::
  "(string \<Rightarrow> int option) \<Rightarrow> (int \<Rightarrow> nat) \<Rightarrow> MonthlyFrequencyPoint list \<Rightarrow> StationMatchedPoint
     \<Rightarrow> js_error + MonthlyFrequencyPoint list" where
  "count_point Date_parse getMonth monthCounts item =
     (case Date_parse (peak_time item) of
        None \<Rightarrow> Inr monthCounts
      | Some timestamp \<Rightarrow>
          (let m = getMonth timestamp
           in if m < length monthCounts
              then Inr (monthCounts[m := (monthCounts ! m)\<lparr>count := count (monthCounts ! m) + 1\<rparr>])
              else Inl TypeError))"

fun count_points ::
  "(string \<Rightarrow> int option) \<Rightarrow> (int \<Rightarrow> nat) \<Rightarrow> MonthlyFrequencyPoint list \<Rightarrow> StationMatchedPoint list
     \<Rightarrow> js_error + MonthlyFrequencyPoint list" where
  "count_points Date_parse getMonth monthCounts [] = Inr monthCounts"
| "count_points Date_parse getMonth monthCounts (item # items) =
     (case count_point Date_parse getMonth monthCounts item of
        Inl e \<Rightarrow> Inl e
      | Inr monthCounts' \<Rightarrow> count_points Date_parse getMonth monthCounts' items)"

definition monthlyFrequency ::
  "(string \<Rightarrow> int option) \<Rightarrow> (int \<Rightarrow> nat) \<Rightarrow> StationMatchedPoint list
     \<Rightarrow> js_error + MonthlyFrequencyPoint list" where
  "monthlyFrequency Date_parse getMonth series =
     count_points Date_parse getMonth initial_monthCounts series"

subsection \<open>The peak distribution\<close>

text \<open>
  The comparator \<^verbatim>\<open>(a, b) => b.peak_value - a.peak_value\<close>, the chain
  \<^verbatim>\<open>filter(...).sort(...)\<close> and the final \<^verbatim>\<open>map\<close> that numbers the sorted points.
\<close>

definition by_peak_desc :: "StationMatchedPoint \<Rightarrow> StationMatchedPoint \<Rightarrow> number" where
  "by_peak_desc a b = number_minus (peak_value b) (peak_value a)"

definition sorted_finite_points :: "StationMatchedPoint list \<Rightarrow> StationMatchedPoint list" where
  "sorted_finite_points series =
     array_sort by_peak_desc (filter (\<lambda>item. isFinite (peak_value item)) series)"

definition to_ranked :: "StationMatchedPoint list \<Rightarrow> PeakDistributionPoint list" where
  "to_ranked items =
     map (\<lambda>(index, item). \<lparr>rank = int index + 1, dist_peak_value = peak_value item\<rparr>)
       (enumerate 0 items)"

definition peakDistribution :: "StationMatchedPoint list \<Rightarrow> PeakDistributionPoint list" where
  "peakDistribution series = to_ranked (sorted_finite_points series)"

subsection \<open>The date range of a tab\<close>

text \<open>
  A handler belongs to a render: \<open>activeTabKey\<close> and the effective bounds \<open>rangeStartDate\<close>
  and \<open>rangeEndDate\<close> are values of that render, computed from the dictionary \<open>rendered\<close>
  that the render saw. The updater that the handler passes to \<^verbatim>\<open>setPeakDateRangeByTab\<close>
  reads the entry \<open>current\<close> from the dictionary \<open>prev\<close> it is given when the update is
  applied. The two dictionaries are the same when the handler runs in the render of the
  state it updates; they differ when several handlers of one render run one after the
  other.
\<close>

definition setStartDate ::
  "page_state \<Rightarrow> StationEventsApiResponse option \<Rightarrow> events_state \<Rightarrow> string \<Rightarrow> events_state
     \<Rightarrow> events_state" where
  "setStartDate pg summaryData rendered next prev =
     (case activeTabKey pg of
        None \<Rightarrow> prev
      | Some k \<Rightarrow>
          (let current = (case peakDateRangeByTab prev k of
                            Some r \<Rightarrow> r | None \<Rightarrow> \<lparr>range_start = [], range_end = []\<rparr>);
               nextEnd = (case rangeEndDate pg rendered summaryData of
                            Some re \<Rightarrow> if re \<noteq> [] \<and> next > re then next else range_end current
                          | None \<Rightarrow> range_end current)
           in prev\<lparr>peakDateRangeByTab :=
                     (peakDateRangeByTab prev)(k \<mapsto> \<lparr>range_start = next, range_end = nextEnd\<rparr>)\<rparr>))"

definition setEndDate ::
  "page_state \<Rightarrow> StationEventsApiResponse option \<Rightarrow> events_state \<Rightarrow> string \<Rightarrow> events_state
     \<Rightarrow> events_state" where
  "setEndDate pg summaryData rendered next prev =
     (case activeTabKey pg of
        None \<Rightarrow> prev
      | Some k \<Rightarrow>
          (let current = (case peakDateRangeByTab prev k of
                            Some r \<Rightarrow> r | None \<Rightarrow> \<lparr>range_start = [], range_end = []\<rparr>);
               nextStart = (case rangeStartDate pg rendered summaryData of
                              Some rs \<Rightarrow> if rs \<noteq> [] \<and> next < rs then next else range_start current
                            | None \<Rightarrow> range_start current)
           in prev\<lparr>peakDateRangeByTab :=
                     (peakDateRangeByTab prev)(k \<mapsto> \<lparr>range_start = nextStart, range_end = next\<rparr>)\<rparr>))"

text \<open>
  An edit of one of the two date inputs, made through the handler of the render that saw
  \<open>rendered\<close> and applied to \<open>prev\<close>.
\<close>

datatype date_edit = SetStart string | SetEnd string

fun apply_edit ::
  "page_state \<Rightarrow> StationEventsApiResponse option \<Rightarrow> events_state \<Rightarrow> events_state \<Rightarrow> date_edit
     \<Rightarrow> events_state" where
  "apply_edit pg summaryData rendered prev (SetStart next) = setStartDate pg summaryData rendered next prev"
| "apply_edit pg summaryData rendered prev (SetEnd next) = setEndDate pg summaryData rendered next prev"

text \<open>
  The edits made through the handlers of one render: the updaters are applied in order,
  the first one to the state of that render, each later one to the result of the one
  before it, all with the effective bounds of that render.
\<close>

definition apply_batch ::
  "page_state \<Rightarrow> StationEventsApiResponse option \<Rightarrow> events_state \<Rightarrow> date_edit list \<Rightarrow> events_state" where
  "apply_batch pg summaryData rendered edits = foldl (apply_edit pg summaryData rendered) rendered edits"

text \<open>A run of renders, each with the edits made in it; the next render sees the result of
  the one before it. The selection and its summary stay the same.\<close>

definition apply_renders ::
  "page_state \<Rightarrow> StationEventsApiResponse option \<Rightarrow> events_state \<Rightarrow> date_edit list list
     \<Rightarrow> events_state" where
  "apply_renders pg summaryData es batches = foldl (apply_batch pg summaryData) es batches"


section \<open>Arrays as objects in a store\<close>

text \<open>
  For the effect of \<open>peakDistribution\<close> on the array it reads, arrays are objects in a
  store and a variable holds a reference, the index of a cell. \<^verbatim>\<open>filter\<close> and \<^verbatim>\<open>map\<close>
  allocate a new array; \<^verbatim>\<open>sort\<close> writes the sorted elements back into the array it is
  called on and returns the same reference. A reference to something that is not an
  array of points is an error.
\<close>

datatype array_object = PointArray "StationMatchedPoint list" | RankArray "PeakDistributionPoint list"

type_synonym heap = "array_object list"

definition alloc :: "heap \<Rightarrow> array_object \<Rightarrow> nat \<times> heap" where
  "alloc h a = (length h, h @ [a])"

definition read_points :: "heap \<Rightarrow> nat \<Rightarrow> StationMatchedPoint list option" where
  "read_points h r =
     (if r < length h then (case h ! r of PointArray xs \<Rightarrow> Some xs | RankArray _ \<Rightarrow> None) else None)"

definition filter_ref ::
  "(StationMatchedPoint \<Rightarrow> bool) \<Rightarrow> nat \<Rightarrow> heap \<Rightarrow> (nat \<times> heap) option" where
  "filter_ref P r h =
     (case read_points h r of None \<Rightarrow> None | Some xs \<Rightarrow> Some (alloc h (PointArray (filter P xs))))"

definition sort_ref ::
  "(StationMatchedPoint \<Rightarrow> StationMatchedPoint \<Rightarrow> number) \<Rightarrow> nat \<Rightarrow> heap \<Rightarrow> (nat \<times> heap) option" where
  "sort_ref cmp r h =
     (case read_points h r of
        None \<Rightarrow> None
      | Some xs \<Rightarrow> Some (r, h[r := PointArray (array_sort cmp xs)]))"

definition map_ranked_ref :: "nat \<Rightarrow> heap \<Rightarrow> (nat \<times> heap) option" where
  "map_ranked_ref r h =
     (case read_points h r of None \<Rightarrow> None | Some xs \<Rightarrow> Some (alloc h (RankArray (to_ranked xs))))"

definition peakDistribution_ref :: "nat \<Rightarrow> heap \<Rightarrow> (nat \<times> heap) option" where
  "peakDistribution_ref series_ref h =
     (case filter_ref (\<lambda>item. isFinite (peak_value item)) series_ref h of
        None \<Rightarrow> None
      | Some (r1, h1) \<Rightarrow>
          (case sort_ref by_peak_desc r1 h1 of
             None \<Rightarrow> None
           | Some (r2, h2) \<Rightarrow> map_ranked_ref r2 h2))"

text \<open>\<^verbatim>\<open>const chartPoints = matchedSeries\<close>: the same reference.\<close>

definition chartPoints_ref :: "nat \<Rightarrow> nat" where
  "chartPoints_ref series_ref = series_ref"

text \<open>The projection derived \<open>n\<close> times in a row from the same series.\<close>

fun derive_times :: "nat \<Rightarrow> nat \<Rightarrow> heap \<Rightarrow> heap option" where
  "derive_times 0 series_ref h = Some h"
| "derive_times (Suc n) series_ref h =
     (case peakDistribution_ref series_ref h of
        None \<Rightarrow> None
      | Some (_, h') \<Rightarrow> derive_times n series_ref h')"

section \<open>Vocabulary of the statements\<close>

text \<open>\<open>i\<close> is the position of the first element of \<open>xs\<close> that satisfies \<open>P\<close>.\<close>

definition is_first :: "('a \<Rightarrow> bool) \<Rightarrow> 'a list \<Rightarrow> nat \<Rightarrow> bool" where
  "is_first P xs i = (i < length xs \<and> P (xs ! i) \<and> (\<forall>j < i. \<not> P (xs ! j)))"

text \<open>
  What a search leaves behind when it opens the basin \<open>b\<close>, and when it commits the
  station \<open>s\<close>: the returned flag and the tabs of the resulting state.
\<close>

definition basin_opened :: "UseStationSearchParams \<Rightarrow> page_state \<Rightarrow> bool \<times> page_state \<Rightarrow> string \<Rightarrow> bool" where
  "basin_opened p st r b =
     (fst r \<and> activeTab (snd r) = Some basin
      \<and> basinTab (snd r) = Some \<lparr>basinName = b,
            stationCount = length (case basinGroups p b of Some l \<Rightarrow> l | None \<Rightarrow> [])\<rparr>
      \<and> selectedSearchItem (snd r) = Some \<lparr>label = b, item_type = Basin\<rparr>
      \<and> stationTab (snd r) = stationTab st)"

definition station_committed :: "page_state \<Rightarrow> bool \<times> page_state \<Rightarrow> Station \<Rightarrow> bool" where
  "station_committed st r s =
     (fst r \<and> activeTab (snd r) = Some station \<and> stationTab (snd r) = Some s
      \<and> selectedStationId (snd r) = Some (station_id s) \<and> basinTab (snd r) = basinTab st)"

text \<open>A station entry qualifies for a keyword when one of its normalized names equals or
  contains it.\<close>

definition station_qualifies :: "string \<Rightarrow> StationSearchIndexItem \<Rightarrow> bool" where
  "station_qualifies k e = (\<exists>n \<in> set (names e). n = k \<or> sublist k n)"

text \<open>The distinct trimmed basin names of a station list, and the trimmed primary names of
  the stations whose normalized form starts with the keyword.\<close>

definition basin_names :: "Station list \<Rightarrow> string set" where
  "basin_names sts = {nm. \<exists>s \<in> set sts. \<exists>raw. basin_name s = Some raw \<and> nm = trim raw \<and> nm \<noteq> []}"

definition station_candidates :: "UseStationSearchParams \<Rightarrow> string \<Rightarrow> Station list \<Rightarrow> string set" where
  "station_candidates p k sts =
     {nm. \<exists>s \<in> set sts. \<exists>raw. station_name s = Some raw \<and> nm = trim raw \<and> nm \<noteq> []
            \<and> prefix k (normalizeText p nm)}"

text \<open>
  A comparator is consistent on a set when it never puts two elements in front of each
  other and "not behind" is transitive; \<^verbatim>\<open>sort\<close> promises a sorted result only for such
  comparators.
\<close>

definition consistent_comparator :: "'a set \<Rightarrow> ('a \<Rightarrow> 'a \<Rightarrow> number) \<Rightarrow> bool" where
  "consistent_comparator A cmp =
     ((\<forall>a \<in> A. \<forall>b \<in> A. is_positive (cmp a b) \<longrightarrow> \<not> is_positive (cmp b a))
      \<and> (\<forall>a \<in> A. \<forall>b \<in> A. \<forall>c \<in> A.
            \<not> is_positive (cmp a b) \<and> \<not> is_positive (cmp b c) \<longrightarrow> \<not> is_positive (cmp a c)))"

text \<open>The points that survive the filter of \<open>peakDistribution\<close>, and the descending order
  of their peak values.\<close>

definition finite_points :: "StationMatchedPoint list \<Rightarrow> StationMatchedPoint list" where
  "finite_points series = filter (\<lambda>item. isFinite (peak_value item)) series"

definition peak_ge :: "StationMatchedPoint \<Rightarrow> StationMatchedPoint \<Rightarrow> bool" where
  "peak_ge a b = (\<exists>x y. peak_value a = Finite x \<and> peak_value b = Finite y \<and> y \<le> x)"

text \<open>A point whose peak time parses, a point whose peak falls in the month with index
  \<open>m\<close>, and the promise of \<^verbatim>\<open>getMonth\<close> to give an index below 12.\<close>

definition parses :: "(string \<Rightarrow> int option) \<Rightarrow> StationMatchedPoint \<Rightarrow> bool" where
  "parses Date_parse item = (Date_parse (peak_time item) \<noteq> None)"

definition in_month :: "(string \<Rightarrow> int option) \<Rightarrow> (int \<Rightarrow> nat) \<Rightarrow> nat \<Rightarrow> StationMatchedPoint \<Rightarrow> bool" where
  "in_month Date_parse getMonth m item =
     (case Date_parse (peak_time item) of None \<Rightarrow> False | Some t \<Rightarrow> getMonth t = m)"

definition months_in_range :: "(string \<Rightarrow> int option) \<Rightarrow> (int \<Rightarrow> nat) \<Rightarrow> StationMatchedPoint list \<Rightarrow> bool" where
  "months_in_range Date_parse getMonth series =
     (\<forall>item \<in> set series. \<forall>t. Date_parse (peak_time item) = Some t \<longrightarrow> getMonth t < 12)"



text \<open>A later store agrees with an earlier one on every cell of the earlier one.\<close>

definition unchanged_below :: "heap \<Rightarrow> heap \<Rightarrow> bool" where
  "unchanged_below h h' = (length h \<le> length h' \<and> (\<forall>a < length h. h' ! a = h ! a))"

section \<open>Concrete data for the worked examples\<close>

text \<open>Stations, a page with a basin tab and a station tab open, and the page with the
  station tab in front.\<close>

definition mk_station :: "string \<Rightarrow> string option \<Rightarrow> string option \<Rightarrow> string option \<Rightarrow> Station" where
  "mk_station sid bname nm nm2 =
     \<lparr>station_id = sid, latitude = Some (Finite 36), longitude = Some (Finite 138),
      basin_name = bname, river_name = None, station_name = nm, station_name2 = nm2,
      station_name3 = None, description = None, has_data = 1\<rparr>"

definition page0 :: page_state where
  "page0 = \<lparr>basinTab = None, stationTab = None, activeTab = None, mapInstance = True,
            selectedStationId = None, previewStationId = None, searchText = [],
            searchHint = [], selectedSearchItem = None, mapCalls = []\<rparr>"

definition midori :: Station where
  "midori = mk_station ''A'' (Some ''Arakawa'') (Some ''Midori'') None"

definition both_tabs :: page_state where
  "both_tabs = page0\<lparr>basinTab := Some \<lparr>basinName = ''Arakawa'', stationCount = 3\<rparr>,
                     stationTab := Some midori, activeTab := Some basin\<rparr>"

definition station_page :: page_state where
  "station_page = both_tabs\<lparr>activeTab := Some station\<rparr>"

definition tonegawa :: Station where
  "tonegawa = mk_station ''T1'' None (Some ''Sakura'') (Some ''Tonegawa'')"

definition tone :: Station where
  "tone = mk_station ''T2'' None (Some ''Tone'') None"

text \<open>
  A stand-in for \<open>normalizeText\<close> (trim, then lower-case the ASCII letters) and one for
  \<open>localeCompare\<close> (the order of the code units).
\<close>

definition to_lower :: "char \<Rightarrow> char" where
  "to_lower c = (if CHR ''A'' \<le> c \<and> c \<le> CHR ''Z'' then char_of (of_char c + (32::nat)) else c)"

definition normalize0 :: "string \<Rightarrow> string" where
  "normalize0 s = map to_lower (trim s)"

definition code_unit_compare :: "string \<Rightarrow> string \<Rightarrow> number" where
  "code_unit_compare a b = (if a < b then Finite (-1) else if b < a then Finite 1 else Finite 0)"

text \<open>Search parameters: three basins and three stations, then ten basins and six stations
  for the suggestions.\<close>

definition basins0 :: "BasinSearchIndexItem list" where
  "basins0 = [\<lparr>name = ''Okitama'', normalizedName = ''okitama''\<rparr>,
              \<lparr>name = ''Kitakami'', normalizedName = ''kitakami''\<rparr>,
              \<lparr>name = ''Kita'', normalizedName = ''kita''\<rparr>]"

definition stations0 :: "StationSearchIndexItem list" where
  "stations0 = [\<lparr>ix_station = midori, names = [''midori'']\<rparr>,
                \<lparr>ix_station = tonegawa, names = [''sakura'', ''tonegawa'']\<rparr>,
                \<lparr>ix_station = tone, names = [''tone'']\<rparr>]"

definition search0 :: UseStationSearchParams where
  "search0 = \<lparr>stations = [midori, tonegawa, tone], basinGroups = Map.empty(''Kita'' \<mapsto> [midori]),
     basinSearchIndex = basins0, stationSearchIndex = stations0,
     noMatchHint = LeafletMap_noMatchHint, getDisplayName = station_id,
     normalizeText = normalize0, localeCompare = code_unit_compare\<rparr>"

definition mk_basin :: "string \<Rightarrow> BasinSearchIndexItem" where
  "mk_basin nm = \<lparr>name = nm, normalizedName = normalize0 nm\<rparr>"

definition shin_basins :: "BasinSearchIndexItem list" where
  "shin_basins = map mk_basin [''Shinano'', ''Oshin'', ''Shingu'', ''Shinji'', ''Shinkawa'', ''Shinmachi'',
     ''Shinjo'', ''Shintone'', ''Shinden'', ''Shinbashi'']"

definition shin_stations :: "Station list" where
  "shin_stations = [mk_station ''S1'' None (Some '' Shinjuku '') (Some ''Shinano''),
                    mk_station ''S2'' None (Some ''Shinjuku'') None,
                    mk_station ''S3'' None (Some ''Oshino'') (Some ''Shinobu''),
                    mk_station ''S4'' None None (Some ''Shinagawa''),
                    mk_station ''S5'' None (Some ''Shibuya'') None,
                    mk_station ''S6'' None (Some ''Shin-Osaka'') None]"

definition suggest0 :: UseStationSearchParams where
  "suggest0 = \<lparr>stations = shin_stations, basinGroups = Map.empty,
     basinSearchIndex = shin_basins, stationSearchIndex = [],
     noMatchHint = LeafletMap_noMatchHint, getDisplayName = station_id,
     normalizeText = normalize0, localeCompare = code_unit_compare\<rparr>"

text \<open>A series of five points, one of them with a peak value that is not finite and a
  peak time that does not parse.\<close>

definition mk_point :: "int \<Rightarrow> string \<Rightarrow> number \<Rightarrow> StationMatchedPoint" where
  "mk_point i t v = \<lparr>point_id = i, peak_time = t, peak_value = v, peak_time_str = None\<rparr>"

definition series4 :: "StationMatchedPoint list" where
  "series4 = [mk_point 1 ''2019-10-12T03:00:00'' (Finite 3), mk_point 2 ''2020-07-04T11:00:00'' (Finite 7),
              mk_point 5 ''bad'' NaN,
              mk_point 3 ''2021-07-15T08:00:00'' (Finite 7), mk_point 4 ''2022-01-02T00:00:00'' (Finite 1)]"

text \<open>
  A stand-in for \<^verbatim>\<open>Date.parse\<close> and \<^verbatim>\<open>getMonth\<close>: a string that starts with a year and
  a month is given the number of months since year 0 as its time value.
\<close>

definition digit :: "char \<Rightarrow> int option" where
  "digit c = (if CHR ''0'' \<le> c \<and> c \<le> CHR ''9'' then Some (int (of_char c) - 48) else None)"

fun number2 :: "char \<Rightarrow> char \<Rightarrow> int option" where
  "number2 a b = (case (digit a, digit b) of (Some x, Some y) \<Rightarrow> Some (10 * x + y) | _ \<Rightarrow> None)"

fun parse_year_month :: "string \<Rightarrow> int option" where
  "parse_year_month (y1 # y2 # y3 # y4 # d # m1 # m2 # rest) =
     (case (number2 y1 y2, number2 y3 y4, number2 m1 m2) of
        (Some c, Some y, Some m) \<Rightarrow>
          if d = CHR ''-'' \<and> 1 \<le> m \<and> m \<le> 12 then Some ((100 * c + y) * 12 + (m - 1)) else None
      | _ \<Rightarrow> None)"
| "parse_year_month _ = None"

definition month_of :: "int \<Rightarrow> nat" where
  "month_of t = nat (t mod 12)"

text \<open>An event summary, and tab dictionaries: empty, with a date range for the station
  tab, and with a chart preset for it.\<close>

definition summary0 :: StationEventsApiResponse where
  "summary0 = \<lparr>summary = \<lparr>totalEvents = 12, matchedEvents = 12,
       firstStartTime = Some ''2000-01-01T00:00:00'', lastEndTime = Some ''2020-12-31T23:00:00'',
       minPeakTime = Some ''2000-01-01T06:00:00'', maxPeakTime = Some ''2020-12-31T12:00:00'',
       maxPeakValue = Some (Finite 7), avgPeakValue = Some (Finite 4),
       avgRiseTime = Some (Finite 2), avgFallTime = Some (Finite 5)\<rparr>,
     matchedSeries = None\<rparr>"

definition events0 :: events_state where
  "events0 = \<lparr>peakDateRangeByTab = Map.empty, selectedPresetByTab = Map.empty\<rparr>"

definition events_ranged :: events_state where
  "events_ranged = events0\<lparr>peakDateRangeByTab :=
      Map.empty(''s:A'' \<mapsto> \<lparr>range_start = ''2010-01-01'', range_end = ''2011-01-01''\<rparr>)\<rparr>"

definition events_preset :: events_state where
  "events_preset = events0\<lparr>selectedPresetByTab := Map.empty(''s:A'' \<mapsto> Some timeline_all)\<rparr>"

text \<open>A store holding the series.\<close>

definition heap0 :: heap where
  "heap0 = [PointArray series4]"

section \<open>Closing tabs\<close>

lemma closePopup_tabs:
  "basinTab (closePopup st) = basinTab st"
  "stationTab (closePopup st) = stationTab st"
  "activeTab (closePopup st) = activeTab st"
  by (simp_all add: closePopup_def)

text \<open>
  C9. Closing the station tab clears \<open>stationTab\<close> and makes the basin tab active when one
  exists, else no tab; closing the basin tab clears \<open>basinTab\<close> and, when the basin tab
  was the active one, makes the station tab active when one exists, else no tab; when
  the basin tab was not active, \<open>activeTab\<close> stays as it was. This holds in every state.
\<close>

theorem close_tabs:
  "stationTab (handleCloseStationTab st) = None
   \<and> activeTab (handleCloseStationTab st) = (if basinTab st \<noteq> None then Some basin else None)
   \<and> basinTab (handleCloseStationTab st) = basinTab st
   \<and> basinTab (handleCloseBasinTab st) = None
   \<and> stationTab (handleCloseBasinTab st) = stationTab st
   \<and> activeTab (handleCloseBasinTab st) =
       (if activeTab st = Some basin
        then (if stationTab st \<noteq> None then Some station else None)
        else activeTab st)"
  by (simp add: handleCloseStationTab_def handleCloseBasinTab_def closePopup_tabs Let_def
      split: option.split)

text \<open>With both tabs open and the basin tab in front: closing either tab brings the other
  one to the front, and closing both leaves no active tab.\<close>

theorem close_tabs_witness:
  "activeTab (handleCloseStationTab both_tabs) = Some basin
   \<and> stationTab (handleCloseStationTab both_tabs) = None
   \<and> activeTab (handleCloseBasinTab both_tabs) = Some station
   \<and> basinTab (handleCloseBasinTab both_tabs) = None
   \<and> activeTab (handleCloseBasinTab (handleCloseStationTab both_tabs)) = None"
  using close_tabs [of both_tabs] close_tabs [of "handleCloseStationTab both_tabs"]
  by (simp add: both_tabs_def page0_def)

section \<open>The match resolver\<close>

subsection \<open>Strings and \<open>find\<close>\<close>

lemma startsWith_prefix: "startsWith s k = prefix k s"
  by (induction s k rule: startsWith.induct) auto

lemma includes_sublist: "includes_str s k = sublist k s"
  by (induction s) (auto simp: startsWith_prefix sublist_Cons_right)

lemma array_find_None: "(array_find P xs = None) = (\<forall>x \<in> set xs. \<not> P x)"
  by (induction xs) auto

lemma array_find_first: "is_first P xs i \<Longrightarrow> array_find P xs = Some (xs ! i)"
proof (induction xs arbitrary: i)
  case Nil
  then show ?case by (simp add: is_first_def)
next
  case (Cons x xs)
  show ?case
  proof (cases i)
    case 0
    with Cons.prems show ?thesis by (simp add: is_first_def)
  next
    case (Suc n)
    from Cons.prems Suc have nx: "\<not> P x" by (auto simp: is_first_def)
    from Cons.prems Suc have "is_first P xs n" by (auto simp: is_first_def)
    from Cons.IH [OF this] nx Suc show ?thesis by simp
  qed
qed

lemma is_first_unique: "is_first P xs i \<Longrightarrow> is_first P xs j \<Longrightarrow> i = j"
  by (metis is_first_def linorder_neqE_nat)

lemma is_first_exists: "\<exists>x \<in> set xs. P x \<Longrightarrow> \<exists>i. is_first P xs i"
proof (induction xs)
  case Nil then show ?case by simp
next
  case (Cons x xs)
  show ?case
  proof (cases "P x")
    case True
    then have "is_first P (x # xs) 0" by (simp add: is_first_def)
    then show ?thesis ..
  next
    case False
    with Cons obtain i where i: "is_first P xs i" by auto
    have "is_first P (x # xs) (Suc i)"
      using i False by (auto simp: is_first_def less_Suc_eq_0_disj)
    then show ?thesis ..
  qed
qed

lemma is_first_take:
  "is_first P xs i = (i < length xs \<and> P (xs ! i) \<and> list_all (\<lambda>x. \<not> P x) (take i xs))"
  by (cases "i < length xs") (auto simp: is_first_def list_all_length)

subsection \<open>The well-formed indexes of the map page\<close>

text \<open>
  The map page builds one basin entry per distinct trimmed basin name that is not
  empty, and one station entry per station, without empty names.
\<close>

lemma group_add_keys: "map fst (group_add g k s) = (if k \<in> fst ` set g then map fst g else map fst g @ [k])"
  by (induction g k s rule: group_add.induct) auto

lemma group_add_key_set: "fst ` set (group_add g k s) = insert k (fst ` set g)"
  by (induction g k s rule: group_add.induct) auto

lemma group_station_keys:
  "fst ` set (group_station g s) = fst ` set g \<union> basin_names [s]"
  by (auto simp: group_station_def group_add_key_set basin_names_def Let_def split: option.splits)

lemma group_station_distinct:
  "distinct (map fst g) \<Longrightarrow> distinct (map fst (group_station g s))"
  by (auto simp: group_station_def group_add_keys Let_def split: option.splits)

lemma basin_names_Cons: "basin_names (s # sts) = basin_names [s] \<union> basin_names sts"
  by (auto simp: basin_names_def)

lemma foldl_group_station:
  "distinct (map fst g) \<Longrightarrow>
   distinct (map fst (foldl group_station g sts))
   \<and> fst ` set (foldl group_station g sts) = fst ` set g \<union> basin_names sts"
proof (induction sts arbitrary: g)
  case Nil
  then show ?case by (simp add: basin_names_def)
next
  case (Cons s sts)
  from group_station_distinct [OF Cons.prems] have "distinct (map fst (group_station g s))" .
  from Cons.IH [OF this] show ?case
    by (simp add: group_station_keys basin_names_Cons [of s sts] Un_assoc)
qed

lemma basin_index_names:
  "distinct (map name (build_basinSearchIndex nt (build_basinGroups sts)))
   \<and> set (map name (build_basinSearchIndex nt (build_basinGroups sts))) = basin_names sts
   \<and> (\<forall>e \<in> set (build_basinSearchIndex nt (build_basinGroups sts)).
         name e \<noteq> [] \<and> normalizedName e = nt (Some (name e)))"
proof -
  have m: "map name (build_basinSearchIndex nt g) = map fst g" for g
    by (induction g) (auto simp: build_basinSearchIndex_def)
  from foldl_group_station [of "[]" sts]
  have d: "distinct (map fst (build_basinGroups sts))"
    and s: "fst ` set (build_basinGroups sts) = basin_names sts"
    by (simp_all add: build_basinGroups_def)
  have n: "name e \<noteq> [] \<and> normalizedName e = nt (Some (name e))"
    if "e \<in> set (build_basinSearchIndex nt (build_basinGroups sts))" for e
  proof -
    from that have "name e \<in> set (map name (build_basinSearchIndex nt (build_basinGroups sts)))"
      by simp
    with s m [of "build_basinGroups sts"] have "name e \<in> basin_names sts" by simp
    moreover from that have "normalizedName e = nt (Some (name e))"
      by (auto simp: build_basinSearchIndex_def)
    ultimately show ?thesis by (auto simp: basin_names_def)
  qed
  from s m [of "build_basinGroups sts"]
  have "set (map name (build_basinSearchIndex nt (build_basinGroups sts))) = basin_names sts"
    by simp
  with d n m [of "build_basinGroups sts"] show ?thesis by simp
qed

lemma station_index_names:
  "map ix_station (build_stationSearchIndex nt sts) = sts
   \<and> (\<forall>e \<in> set (build_stationSearchIndex nt sts). [] \<notin> set (names e))"
  by (induction sts) (auto simp: build_stationSearchIndex_def)

subsection \<open>The three basin stages\<close>

lemma findBasin_exact:
  "is_first (\<lambda>e. normalizedName e = k) ix i \<Longrightarrow> findBasin ix k = Some (name (ix ! i))"
  by (simp add: findBasin_def nullish_def array_find_first)

lemma findBasin_prefix:
  "\<forall>e \<in> set ix. normalizedName e \<noteq> k \<Longrightarrow> is_first (\<lambda>e. prefix k (normalizedName e)) ix i
   \<Longrightarrow> findBasin ix k = Some (name (ix ! i))"
  using array_find_None [of "\<lambda>e. normalizedName e = k" ix]
  by (simp add: findBasin_def nullish_def array_find_first startsWith_prefix)

lemma findBasin_substring:
  "\<forall>e \<in> set ix. \<not> prefix k (normalizedName e) \<Longrightarrow> is_first (\<lambda>e. sublist k (normalizedName e)) ix i
   \<Longrightarrow> findBasin ix k = Some (name (ix ! i))"
  using array_find_None [of "\<lambda>e. normalizedName e = k" ix]
    array_find_None [of "\<lambda>e. prefix k (normalizedName e)" ix]
  apply (simp add: findBasin_def nullish_def array_find_first startsWith_prefix includes_sublist)
  by (metis (mono_tags, lifting) array_find_None option.simps(4) prefix_order.order_refl)

lemma findBasin_none:
  "\<forall>e \<in> set ix. \<not> sublist k (normalizedName e) \<Longrightarrow> findBasin ix k = None"
  using array_find_None [of "\<lambda>e. normalizedName e = k" ix]
    array_find_None [of "\<lambda>e. prefix k (normalizedName e)" ix]
    array_find_None [of "\<lambda>e. sublist k (normalizedName e)" ix]
  apply (simp add: findBasin_def nullish_def startsWith_prefix includes_sublist)
  by (metis (mono_tags, lifting) option.simps(4) prefix_imp_sublist sublist_order.order_refl)

lemma zoomToStations_frame:
  "basinTab (zoomToStations l st) = basinTab st"
  "stationTab (zoomToStations l st) = stationTab st"
  "activeTab (zoomToStations l st) = activeTab st"
  "selectedStationId (zoomToStations l st) = selectedStationId st"
  "mapInstance (zoomToStations l st) = mapInstance st"
  by (simp_all add: zoomToStations_def split: list.split)

lemma closePopup_frame:
  "selectedSearchItem (closePopup st) = selectedSearchItem st"
  "selectedStationId (closePopup st) = selectedStationId st"
  "searchHint (closePopup st) = searchHint st"
  "previewStationId (closePopup st) = previewStationId st"
  by (simp_all add: closePopup_def)

lemma openBasin_opened: "basin_opened p st (openBasin p b st) b"
  by (simp add: basin_opened_def openBasin_def Let_def closePopup_tabs closePopup_frame
      clearPreview_def zoomToStations_frame)

lemma performSearch_found:
  assumes "trim raw \<noteq> []" "mapInstance st"
    and "findBasin (basinSearchIndex p) (normalizeText p (trim raw)) = Some b" "b \<noteq> []"
  shows "performSearch p raw st = openBasin p b st"
  using assms by (simp add: performSearch_def Let_def)

lemma performSearch_not_found:
  assumes "trim raw \<noteq> []" "mapInstance st"
    and "findBasin (basinSearchIndex p) (normalizeText p (trim raw)) = None"
  shows "performSearch p raw st = searchStations p (normalizeText p (trim raw)) st"
  using assms by (simp add: performSearch_def Let_def)

lemma findStation_first:
  "is_first (station_qualifies k) sx i \<Longrightarrow> findStation sx k = Some (ix_station (sx ! i))"
proof -
  have eq: "(\<lambda>e. list_ex (\<lambda>n. n = k \<or> includes_str n k) (names e)) = station_qualifies k"
    by (intro ext) (simp add: station_qualifies_def list_ex_iff includes_sublist)
  assume "is_first (station_qualifies k) sx i"
  then show ?thesis by (simp add: findStation_def eq array_find_first)
qed

lemma findStation_none:
  "\<forall>e \<in> set sx. \<not> station_qualifies k e \<Longrightarrow> findStation sx k = None"
proof -
  have eq: "(\<lambda>e. list_ex (\<lambda>n. n = k \<or> includes_str n k) (names e)) = station_qualifies k"
    by (intro ext) (simp add: station_qualifies_def list_ex_iff includes_sublist)
  assume "\<forall>e \<in> set sx. \<not> station_qualifies k e"
  then show ?thesis by (simp add: findStation_def eq array_find_None)
qed

lemma searchStations_found:
  "findStation (stationSearchIndex p) k = Some s \<Longrightarrow> station_committed st (searchStations p k st) s"
  by (simp add: searchStations_def station_committed_def Let_def commitStationSelection_def
      closePopup_tabs closePopup_frame zoomToStations_frame)

lemma searchStations_none:
  "findStation (stationSearchIndex p) k = None \<Longrightarrow>
   searchStations p k st =
     (False, st\<lparr>selectedSearchItem := None, previewStationId := None, searchHint := noMatchHint p\<rparr>)"
  by (simp add: searchStations_def clearPreview_def)

text \<open>
  C1. For a keyword that is not empty after trimming, with the map ready and over a
  basin index without empty names, \<open>performSearch\<close> opens the basin chosen by a staged
  search of the whole basin index: the first entry whose normalized name equals the
  normalized keyword; if there is none, the first entry whose normalized name starts
  with it; if there is none, the first entry whose normalized name contains it. Only
  when no basin entry contains the keyword does the search go on to the station index.
  So whenever some basin entry qualifies at any stage, a basin is opened and the
  station tab is left as it was.
\<close>

theorem basin_stages:
  assumes kw: "trim raw \<noteq> []" and ready: "mapInstance st"
    and wf: "\<forall>e \<in> set (basinSearchIndex p). name e \<noteq> []"
  shows "(is_first (\<lambda>e. normalizedName e = normalizeText p (trim raw)) (basinSearchIndex p) i
            \<longrightarrow> basin_opened p st (performSearch p raw st) (name (basinSearchIndex p ! i)))
       \<and> ((\<forall>e \<in> set (basinSearchIndex p). normalizedName e \<noteq> normalizeText p (trim raw))
            \<and> is_first (\<lambda>e. prefix (normalizeText p (trim raw)) (normalizedName e)) (basinSearchIndex p) i
            \<longrightarrow> basin_opened p st (performSearch p raw st) (name (basinSearchIndex p ! i)))
       \<and> ((\<forall>e \<in> set (basinSearchIndex p). \<not> prefix (normalizeText p (trim raw)) (normalizedName e))
            \<and> is_first (\<lambda>e. sublist (normalizeText p (trim raw)) (normalizedName e)) (basinSearchIndex p) i
            \<longrightarrow> basin_opened p st (performSearch p raw st) (name (basinSearchIndex p ! i)))
       \<and> ((\<forall>e \<in> set (basinSearchIndex p). \<not> sublist (normalizeText p (trim raw)) (normalizedName e))
            \<longrightarrow> performSearch p raw st = searchStations p (normalizeText p (trim raw)) st)
       \<and> ((\<exists>e \<in> set (basinSearchIndex p). sublist (normalizeText p (trim raw)) (normalizedName e))
            \<longrightarrow> (\<exists>e \<in> set (basinSearchIndex p). basin_opened p st (performSearch p raw st) (name e)))"
proof -
  let ?k = "normalizeText p (trim raw)"
  let ?ix = "basinSearchIndex p"
  have nm: "name (?ix ! j) \<noteq> []" if "is_first P ?ix j" for P j
    using that wf by (simp add: is_first_def)
  have found: "basin_opened p st (performSearch p raw st) (name (?ix ! j))"
    if "findBasin ?ix ?k = Some (name (?ix ! j))" "is_first P ?ix j" for P j
    using performSearch_found [OF kw ready that(1) nm [OF that(2)]] openBasin_opened by simp
  have a: "basin_opened p st (performSearch p raw st) (name (?ix ! i))"
    if "is_first (\<lambda>e. normalizedName e = ?k) ?ix i"
    using found [OF findBasin_exact [OF that] that] .
  have b: "basin_opened p st (performSearch p raw st) (name (?ix ! j))"
    if "\<forall>e \<in> set ?ix. normalizedName e \<noteq> ?k" "is_first (\<lambda>e. prefix ?k (normalizedName e)) ?ix j" for j
    using found [OF findBasin_prefix [OF that] that(2)] .
  have c: "basin_opened p st (performSearch p raw st) (name (?ix ! j))"
    if "\<forall>e \<in> set ?ix. \<not> prefix ?k (normalizedName e)" "is_first (\<lambda>e. sublist ?k (normalizedName e)) ?ix j" for j
    using found [OF findBasin_substring [OF that] that(2)] .
  have d: "performSearch p raw st = searchStations p ?k st"
    if "\<forall>e \<in> set ?ix. \<not> sublist ?k (normalizedName e)"
    using performSearch_not_found [OF kw ready findBasin_none [OF that]] .
  have e: "\<exists>e \<in> set ?ix. basin_opened p st (performSearch p raw st) (name e)"
    if ex: "\<exists>e \<in> set ?ix. sublist ?k (normalizedName e)"
  proof -
    have in_set: "?ix ! j \<in> set ?ix" if "is_first P ?ix j" for P j
      using that by (simp add: is_first_def)
    show ?thesis
    proof (cases "\<exists>e \<in> set ?ix. normalizedName e = ?k")
      case True
      from is_first_exists [of ?ix "\<lambda>e. normalizedName e = ?k", OF True]
      obtain j where j: "is_first (\<lambda>e. normalizedName e = ?k) ?ix j" ..
      from found [OF findBasin_exact [OF j] j] in_set [OF j] show ?thesis by blast
    next
      case ne: False
      show ?thesis
      proof (cases "\<exists>e \<in> set ?ix. prefix ?k (normalizedName e)")
        case True
        from is_first_exists [of ?ix "\<lambda>e. prefix ?k (normalizedName e)", OF True]
        obtain j where j: "is_first (\<lambda>e. prefix ?k (normalizedName e)) ?ix j" ..
        from ne have "\<forall>e \<in> set ?ix. normalizedName e \<noteq> ?k" by blast
        from b [OF this j] in_set [OF j] show ?thesis by blast
      next
        case False
        from is_first_exists [of ?ix "\<lambda>e. sublist ?k (normalizedName e)", OF ex]
        obtain j where j: "is_first (\<lambda>e. sublist ?k (normalizedName e)) ?ix j" ..
        from False have "\<forall>e \<in> set ?ix. \<not> prefix ?k (normalizedName e)" by blast
        from c [OF this j] in_set [OF j] show ?thesis by blast
      qed
    qed
  qed
  from a b c d e show ?thesis by blast
qed

lemma search0_simps:
  "basinSearchIndex search0 = basins0" "stationSearchIndex search0 = stations0"
  "normalizeText search0 = normalize0" "noMatchHint search0 = LeafletMap_noMatchHint"
  by (simp_all add: search0_def)

lemma norm_examples:
  "trim '' Kita '' = ''Kita''" "normalize0 ''Kita'' = ''kita''"
  "trim ''kitak'' = ''kitak''" "normalize0 ''kitak'' = ''kitak''"
  "trim ''TAM'' = ''TAM''" "normalize0 ''TAM'' = ''tam''"
  "trim ''tone'' = ''tone''" "normalize0 ''tone'' = ''tone''"
  "trim ''zzz'' = ''zzz''" "normalize0 ''zzz'' = ''zzz''"
  by code_simp+

text \<open>
  The exact stage picks the third entry although the first two contain the keyword;
  the prefix stage picks the second entry; the substring stage picks the first; a
  keyword that no basin contains goes on to the stations.
\<close>

theorem basin_stages_witness:
  "basin_opened search0 page0 (performSearch search0 '' Kita '' page0) ''Kita''
   \<and> basin_opened search0 page0 (performSearch search0 ''kitak'' page0) ''Kitakami''
   \<and> basin_opened search0 page0 (performSearch search0 ''TAM'' page0) ''Okitama''
   \<and> performSearch search0 ''zzz'' page0 = searchStations search0 ''zzz'' page0
   \<and> (\<exists>e \<in> set basins0. basin_opened search0 page0 (performSearch search0 ''TAM'' page0) (name e))"
proof -
  have ready: "mapInstance page0" by (simp add: page0_def)
  have wf: "\<forall>e \<in> set (basinSearchIndex search0). name e \<noteq> []"
    by (simp add: search0_simps basins0_def)
  have k1: "trim '' Kita '' \<noteq> []" and k2: "trim ''kitak'' \<noteq> []" and k3: "trim ''TAM'' \<noteq> []"
    and k4: "trim ''zzz'' \<noteq> []"
    by (simp_all add: norm_examples)
  have s1: "is_first (\<lambda>e. normalizedName e = ''kita'') basins0 2"
    by (simp add: is_first_take basins0_def)
  have s2: "(\<forall>e \<in> set basins0. normalizedName e \<noteq> ''kitak'')
      \<and> is_first (\<lambda>e. prefix ''kitak'' (normalizedName e)) basins0 1"
    by (simp add: is_first_take basins0_def)
  have s3: "(\<forall>e \<in> set basins0. \<not> prefix ''tam'' (normalizedName e))
      \<and> is_first (\<lambda>e. sublist ''tam'' (normalizedName e)) basins0 0"
    by (simp add: is_first_take basins0_def sublist_code)
  have s4: "\<forall>e \<in> set basins0. \<not> sublist ''zzz'' (normalizedName e)"
    by (simp add: basins0_def sublist_code)
  have s5: "\<exists>e \<in> set basins0. sublist ''tam'' (normalizedName e)"
    by (simp add: basins0_def sublist_code)
  show ?thesis
    using basin_stages [OF k1 ready wf, of 2] basin_stages [OF k2 ready wf, of 1]
      basin_stages [OF k3 ready wf, of 0] basin_stages [OF k4 ready wf, of 0]
      s1 s2 s3 s4 s5
    by (simp add: search0_simps norm_examples basins0_def)
qed

subsection \<open>The station stage\<close>

text \<open>
  C2. When no basin entry contains the normalized keyword, the station that is
  committed is the first entry of the station index with a normalized name that equals
  or contains the keyword, found in one pass; when no entry qualifies the search ends
  with the no-match hint. So an entry that merely contains the keyword, earlier in the
  index, is returned and not a later entry whose name equals the keyword.
\<close>

theorem station_single_pass:
  assumes kw: "trim raw \<noteq> []" and ready: "mapInstance st"
    and nobasin: "\<forall>e \<in> set (basinSearchIndex p). \<not> sublist (normalizeText p (trim raw)) (normalizedName e)"
  shows "(is_first (station_qualifies (normalizeText p (trim raw))) (stationSearchIndex p) i
            \<longrightarrow> station_committed st (performSearch p raw st) (ix_station (stationSearchIndex p ! i)))
       \<and> ((\<forall>e \<in> set (stationSearchIndex p). \<not> station_qualifies (normalizeText p (trim raw)) e)
            \<longrightarrow> performSearch p raw st =
                  (False, st\<lparr>selectedSearchItem := None, previewStationId := None,
                             searchHint := noMatchHint p\<rparr>))
       \<and> (is_first (station_qualifies (normalizeText p (trim raw))) (stationSearchIndex p) i
            \<and> normalizeText p (trim raw) \<notin> set (names (stationSearchIndex p ! i))
            \<and> i < j \<and> j < length (stationSearchIndex p)
            \<and> normalizeText p (trim raw) \<in> set (names (stationSearchIndex p ! j))
            \<and> ix_station (stationSearchIndex p ! j) \<noteq> ix_station (stationSearchIndex p ! i)
            \<longrightarrow> station_committed st (performSearch p raw st) (ix_station (stationSearchIndex p ! i))
                \<and> \<not> station_committed st (performSearch p raw st) (ix_station (stationSearchIndex p ! j)))"
proof -
  let ?k = "normalizeText p (trim raw)"
  have eq: "performSearch p raw st = searchStations p ?k st"
    using performSearch_not_found [OF kw ready findBasin_none [OF nobasin]] .
  have a: "station_committed st (performSearch p raw st) (ix_station (stationSearchIndex p ! i))"
    if "is_first (station_qualifies ?k) (stationSearchIndex p) i"
    using searchStations_found [OF findStation_first [OF that]] eq by simp
  have b: "performSearch p raw st =
      (False, st\<lparr>selectedSearchItem := None, previewStationId := None, searchHint := noMatchHint p\<rparr>)"
    if "\<forall>e \<in> set (stationSearchIndex p). \<not> station_qualifies ?k e"
    using searchStations_none [OF findStation_none [OF that]] eq by simp
  have c: "\<not> station_committed st r s'" if "station_committed st r s" "s' \<noteq> s" for r s s'
    using that by (auto simp: station_committed_def)
  from a b c show ?thesis by blast
qed

text \<open>The keyword \<open>tone\<close> commits the station with the second name \<open>Tonegawa\<close>, which comes
  before the station named \<open>Tone\<close>.\<close>

theorem station_single_pass_witness:
  "station_committed page0 (performSearch search0 ''tone'' page0) tonegawa
   \<and> \<not> station_committed page0 (performSearch search0 ''tone'' page0) tone
   \<and> performSearch search0 ''zzz'' page0 =
       (False, page0\<lparr>selectedSearchItem := None, previewStationId := None,
                     searchHint := LeafletMap_noMatchHint\<rparr>)"
proof -
  have ready: "mapInstance page0" by (simp add: page0_def)
  have k1: "trim ''tone'' \<noteq> []" and k4: "trim ''zzz'' \<noteq> []"
    by (simp_all add: norm_examples)
  have b1: "\<forall>e \<in> set (basinSearchIndex search0). \<not> sublist (normalizeText search0 (trim ''tone'')) (normalizedName e)"
    by (simp add: search0_simps norm_examples basins0_def sublist_code)
  have b4: "\<forall>e \<in> set (basinSearchIndex search0). \<not> sublist (normalizeText search0 (trim ''zzz'')) (normalizedName e)"
    by (simp add: search0_simps norm_examples basins0_def sublist_code)
  have s1: "is_first (station_qualifies ''tone'') stations0 1"
    by (simp add: is_first_take stations0_def station_qualifies_def sublist_code)
  have s2: "''tone'' \<notin> set (names (stations0 ! 1)) \<and> (1::nat) < 2 \<and> 2 < length stations0
      \<and> ''tone'' \<in> set (names (stations0 ! 2))
      \<and> ix_station (stations0 ! 2) \<noteq> ix_station (stations0 ! 1)"
    by (simp add: stations0_def tone_def tonegawa_def mk_station_def)
  have s4: "\<forall>e \<in> set stations0. \<not> station_qualifies ''zzz'' e"
    by (simp add: stations0_def station_qualifies_def sublist_code)
  have n1: "stations0 ! Suc 0 = \<lparr>ix_station = tonegawa, names = [''sakura'', ''tonegawa'']\<rparr>"
    "stations0 ! 2 = \<lparr>ix_station = tone, names = [''tone'']\<rparr>"
    by (simp_all add: stations0_def)
  show ?thesis
    using station_single_pass [OF k1 ready b1, of 1 2] station_single_pass [OF k4 ready b4, of 0 0]
      s1 s2 s4
    by (simp add: search0_simps norm_examples n1)
qed

subsection \<open>Input errors\<close>

text \<open>
  C8. When the trimmed input is empty, and likewise when the map is not ready,
  \<open>performSearch\<close> returns false and sets a hint that differs from the no-match hint of
  the page and is shown as it is; \<open>stationTab\<close>, \<open>basinTab\<close> and \<open>activeTab\<close> keep their
  values: only the preview and the selected search item are reset.
\<close>

theorem input_error_keeps_selection:
  assumes "trim raw = [] \<or> \<not> mapInstance st" and "noMatchHint p = LeafletMap_noMatchHint"
  shows "fst (performSearch p raw st) = False
       \<and> snd (performSearch p raw st) =
           st\<lparr>selectedSearchItem := None, previewStationId := None,
              searchHint := (if trim raw = [] then ''Please enter a basin / station name.''
                             else ''Map is not ready yet. Please try again shortly.'')\<rparr>
       \<and> searchHint (snd (performSearch p raw st)) \<noteq> noMatchHint p
       \<and> searchHintText p (snd (performSearch p raw st)) = searchHint (snd (performSearch p raw st))
       \<and> stationTab (snd (performSearch p raw st)) = stationTab st
       \<and> basinTab (snd (performSearch p raw st)) = basinTab st
       \<and> activeTab (snd (performSearch p raw st)) = activeTab st"
  using assms
  by (auto simp: performSearch_def Let_def clearPreview_def LeafletMap_noMatchHint_def searchHintText_def)

text \<open>A blank input, and a keyword entered before the map is ready, with two tabs open.\<close>

theorem input_error_keeps_selection_witness:
  "fst (performSearch search0 ''   '' both_tabs) = False
   \<and> searchHint (snd (performSearch search0 ''   '' both_tabs)) = ''Please enter a basin / station name.''
   \<and> stationTab (snd (performSearch search0 ''   '' both_tabs)) = Some midori
   \<and> activeTab (snd (performSearch search0 ''   '' both_tabs)) = Some basin
   \<and> fst (performSearch search0 ''Kita'' (both_tabs\<lparr>mapInstance := False\<rparr>)) = False
   \<and> searchHint (snd (performSearch search0 ''Kita'' (both_tabs\<lparr>mapInstance := False\<rparr>)))
       = ''Map is not ready yet. Please try again shortly.''
   \<and> basinTab (snd (performSearch search0 ''Kita'' (both_tabs\<lparr>mapInstance := False\<rparr>)))
       = Some \<lparr>basinName = ''Arakawa'', stationCount = 3\<rparr>"
proof -
  have e1: "trim ''   '' = []" by code_simp
  have e2: "trim ''Kita'' \<noteq> []" by code_simp
  have h1: "trim ''   '' = [] \<or> \<not> mapInstance both_tabs" using e1 by simp
  have h2: "trim ''Kita'' = [] \<or> \<not> mapInstance (both_tabs\<lparr>mapInstance := False\<rparr>)" by simp
  have nm: "noMatchHint search0 = LeafletMap_noMatchHint" by (simp add: search0_simps)
  show ?thesis
    using input_error_keeps_selection [OF h1 nm] input_error_keeps_selection [OF h2 nm] e1 e2
    by (simp add: both_tabs_def page0_def)
qed

section \<open>Sorting\<close>

lemma mset_sort_insert: "mset (sort_insert cmp x ys) = add_mset x (mset ys)"
  by (induction ys) auto

lemma mset_array_sort: "mset (array_sort cmp xs) = mset xs"
  by (induction xs) (auto simp: mset_sort_insert)

lemma set_sort_insert: "set (sort_insert cmp x ys) = insert x (set ys)"
  by (induction ys) auto

lemma set_array_sort: "set (array_sort cmp xs) = set xs"
  by (induction xs) (auto simp: set_sort_insert)

lemma length_sort_insert: "length (sort_insert cmp x ys) = Suc (length ys)"
  by (induction ys) auto

lemma length_array_sort: "length (array_sort cmp xs) = length xs"
  by (induction xs) (auto simp: length_sort_insert)

lemma distinct_sort_insert: "distinct (sort_insert cmp x ys) = (x \<notin> set ys \<and> distinct ys)"
  by (induction ys) (auto simp: set_sort_insert)

lemma distinct_array_sort: "distinct (array_sort cmp xs) = distinct xs"
  by (induction xs) (auto simp: distinct_sort_insert set_array_sort)

lemma sorted_sort_insert:
  assumes "consistent_comparator A cmp" "x \<in> A" "set ys \<subseteq> A"
    and "sorted_wrt (\<lambda>a b. \<not> is_positive (cmp a b)) ys"
  shows "sorted_wrt (\<lambda>a b. \<not> is_positive (cmp a b)) (sort_insert cmp x ys)"
  using assms(3,4)
proof (induction ys)
  case Nil
  then show ?case by simp
next
  case (Cons y ys)
  from Cons.prems have yA: "y \<in> A" and ysA: "set ys \<subseteq> A" by simp_all
  show ?case
  proof (cases "is_positive (cmp x y)")
    case True
    then have "\<not> is_positive (cmp y x)"
      using assms(1,2) yA unfolding consistent_comparator_def by blast
    moreover from Cons ysA have "sorted_wrt (\<lambda>a b. \<not> is_positive (cmp a b)) (sort_insert cmp x ys)"
      and "\<forall>z \<in> set ys. \<not> is_positive (cmp y z)" by simp_all
    ultimately show ?thesis using True by (simp add: set_sort_insert)
  next
    case False
    have "\<not> is_positive (cmp x z)" if "z \<in> set ys" for z
    proof -
      from Cons.prems that have "\<not> is_positive (cmp y z)" by simp
      moreover from that ysA have "z \<in> A" by blast
      ultimately show ?thesis
        using False assms(1,2) yA unfolding consistent_comparator_def by blast
    qed
    with False Cons.prems show ?thesis by simp
  qed
qed

lemma sorted_array_sort:
  "consistent_comparator A cmp \<Longrightarrow> set xs \<subseteq> A
   \<Longrightarrow> sorted_wrt (\<lambda>a b. \<not> is_positive (cmp a b)) (array_sort cmp xs)"
proof (induction xs)
  case Nil
  then show ?case by simp
next
  case (Cons x xs)
  then have "sorted_wrt (\<lambda>a b. \<not> is_positive (cmp a b)) (array_sort cmp xs)" by simp
  from sorted_sort_insert [OF Cons.prems(1) _ _ this, of x] Cons.prems(2)
  show ?case by (simp add: set_array_sort)
qed

lemma filter_sort_insert:
  assumes "\<forall>y \<in> set ys. Q x \<and> Q y \<longrightarrow> \<not> is_positive (cmp x y)"
  shows "filter Q (sort_insert cmp x ys) = filter Q (x # ys)"
  using assms by (induction ys) auto

lemma filter_array_sort:
  assumes "\<forall>x \<in> set xs. \<forall>y \<in> set xs. Q x \<and> Q y \<longrightarrow> \<not> is_positive (cmp x y)"
  shows "filter Q (array_sort cmp xs) = filter Q xs"
  using assms
proof (induction xs)
  case Nil
  then show ?case by simp
next
  case (Cons x xs)
  then have ih: "filter Q (array_sort cmp xs) = filter Q xs" by simp
  have "\<forall>y \<in> set (array_sort cmp xs). Q x \<and> Q y \<longrightarrow> \<not> is_positive (cmp x y)"
    using Cons.prems by (simp add: set_array_sort)
  from filter_sort_insert [of "array_sort cmp xs" Q x cmp, OF this] ih show ?case by simp
qed

section \<open>Suggestions\<close>

lemma collect_name_cases:
  "collect_name p k acc s =
     (case station_name s of None \<Rightarrow> acc
      | Some raw \<Rightarrow> if trim raw \<noteq> [] \<and> prefix k (normalizeText p (trim raw))
                    then set_add acc (trim raw) else acc)"
  by (simp add: collect_name_def Let_def startsWith_prefix split: option.split)

lemma set_add_props:
  "set (set_add acc x) = insert x (set acc)" "distinct acc \<Longrightarrow> distinct (set_add acc x)"
  by (auto simp: set_add_def)

lemma collect_name_set:
  "set (collect_name p k acc s) = set acc \<union> station_candidates p k [s]"
  by (auto simp: collect_name_cases station_candidates_def set_add_props split: option.split)

lemma collect_name_distinct: "distinct acc \<Longrightarrow> distinct (collect_name p k acc s)"
  by (simp add: collect_name_cases set_add_props split: option.split)

lemma station_candidates_Cons:
  "station_candidates p k (s # sts) = station_candidates p k [s] \<union> station_candidates p k sts"
  by (auto simp: station_candidates_def)

lemma collect_names:
  "distinct acc \<Longrightarrow>
   distinct (foldl (collect_name p k) acc sts)
   \<and> set (foldl (collect_name p k) acc sts) = set acc \<union> station_candidates p k sts"
proof (induction sts arbitrary: acc)
  case Nil
  then show ?case by (simp add: station_candidates_def)
next
  case (Cons s sts)
  from collect_name_distinct [OF Cons.prems] have "distinct (collect_name p k acc s)" .
  from Cons.IH [OF this]
  show ?case
    by (simp add: collect_name_set station_candidates_Cons [of p k s sts] Un_assoc)
qed

text \<open>
  C6. The suggestion list is the basin suggestions followed by the station suggestions,
  at most 8 of each and at most 16 in all. The basin suggestions are the display names
  of the basin entries whose normalized name starts with the normalized keyword, sorted
  ascending by \<open>localeCompare\<close> and cut to the first 8. The station suggestions are the
  trimmed primary names (not the alternate names) that are not empty and whose
  normalized form starts with the keyword, each name once, sorted ascending and cut to
  the first 8. An empty normalized keyword gives the empty list. \<open>localeCompare\<close> is
  taken to be a consistent comparator.
\<close>

theorem suggestions_shape:
  assumes cmp: "consistent_comparator UNIV (localeCompare p)"
  shows "searchSuggestions p text =
           map (\<lambda>v. \<lparr>sg_value = v, sg_type = Basin\<rparr>) (basinSuggestions p text)
           @ map (\<lambda>v. \<lparr>sg_value = v, sg_type = Station\<rparr>) (stationNameSuggestions p text)
       \<and> length (basinSuggestions p text) \<le> 8
       \<and> length (stationNameSuggestions p text) \<le> 8
       \<and> length (searchSuggestions p text) \<le> 16
       \<and> (normalizeText p text \<noteq> [] \<longrightarrow>
            (\<exists>full. mset full = mset (map name (filter (\<lambda>e. prefix (normalizeText p text) (normalizedName e))
                                                 (basinSearchIndex p)))
                 \<and> sorted_wrt (\<lambda>a b. \<not> is_positive (localeCompare p a b)) full
                 \<and> basinSuggestions p text = take 8 full))
       \<and> (normalizeText p text \<noteq> [] \<longrightarrow>
            (\<exists>full. distinct full
                 \<and> set full = station_candidates p (normalizeText p text) (stations p)
                 \<and> sorted_wrt (\<lambda>a b. \<not> is_positive (localeCompare p a b)) full
                 \<and> stationNameSuggestions p text = take 8 full))
       \<and> (normalizeText p text = [] \<longrightarrow> searchSuggestions p text = [])"
proof -
  let ?k = "normalizeText p text"
  have lb: "length (basinSuggestions p text) \<le> 8"
    by (simp add: basinSuggestions_def Let_def)
  have ls: "length (stationNameSuggestions p text) \<le> 8"
    by (simp add: stationNameSuggestions_def Let_def)
  have lt: "length (searchSuggestions p text) \<le> 16"
    using lb ls by (simp add: searchSuggestions_def)
  have b: "\<exists>full. mset full = mset (map name (filter (\<lambda>e. prefix ?k (normalizedName e)) (basinSearchIndex p)))
                 \<and> sorted_wrt (\<lambda>a b. \<not> is_positive (localeCompare p a b)) full
                 \<and> basinSuggestions p text = take 8 full" if "?k \<noteq> []"
  proof -
    let ?c = "map name (filter (\<lambda>e. prefix ?k (normalizedName e)) (basinSearchIndex p))"
    have "basinSuggestions p text = take 8 (array_sort (localeCompare p) ?c)"
      using that by (simp add: basinSuggestions_def Let_def startsWith_prefix)
    moreover have "sorted_wrt (\<lambda>a b. \<not> is_positive (localeCompare p a b)) (array_sort (localeCompare p) ?c)"
      by (rule sorted_array_sort [OF cmp]) simp
    ultimately show ?thesis using mset_array_sort [of "localeCompare p" ?c] by blast
  qed
  have s: "\<exists>full. distinct full \<and> set full = station_candidates p ?k (stations p)
                 \<and> sorted_wrt (\<lambda>a b. \<not> is_positive (localeCompare p a b)) full
                 \<and> stationNameSuggestions p text = take 8 full" if "?k \<noteq> []"
  proof -
    let ?c = "foldl (collect_name p ?k) [] (stations p)"
    have "stationNameSuggestions p text = take 8 (array_sort (localeCompare p) ?c)"
      using that by (simp add: stationNameSuggestions_def Let_def)
    moreover have "sorted_wrt (\<lambda>a b. \<not> is_positive (localeCompare p a b)) (array_sort (localeCompare p) ?c)"
      by (rule sorted_array_sort [OF cmp]) simp
    moreover have "distinct (array_sort (localeCompare p) ?c)"
      "set (array_sort (localeCompare p) ?c) = station_candidates p ?k (stations p)"
      using collect_names [of "[]" p ?k "stations p"]
      by (simp_all add: distinct_array_sort set_array_sort)
    ultimately show ?thesis by blast
  qed
  have e: "searchSuggestions p text = []" if "?k = []"
    using that by (simp add: searchSuggestions_def basinSuggestions_def stationNameSuggestions_def)
  show ?thesis using lb ls lt b s e by (simp add: searchSuggestions_def)
qed

lemma code_unit_compare_consistent: "consistent_comparator UNIV code_unit_compare"
  by (auto simp: consistent_comparator_def code_unit_compare_def is_positive_def)

lemma suggest0_examples:
  "basinSuggestions suggest0 ''Shin'' =
     [''Shinano'', ''Shinbashi'', ''Shinden'', ''Shingu'', ''Shinji'', ''Shinjo'', ''Shinkawa'', ''Shinmachi'']"
  "stationNameSuggestions suggest0 ''Shin'' = [''Shin-Osaka'', ''Shinjuku'']"
  "normalize0 ''Shin'' = ''shin''" "normalize0 ''   '' = []"
  by code_simp+

text \<open>Of nine basins that start with \<open>Shin\<close> the first eight in order are suggested, the
  basin \<open>Oshin\<close> is not; the station name with blanks around it appears once.\<close>

theorem suggestions_shape_witness:
  "consistent_comparator UNIV (localeCompare suggest0)
   \<and> normalizeText suggest0 ''Shin'' \<noteq> []
   \<and> map sg_value (searchSuggestions suggest0 ''Shin'') =
       [''Shinano'', ''Shinbashi'', ''Shinden'', ''Shingu'', ''Shinji'', ''Shinjo'', ''Shinkawa'',
        ''Shinmachi'', ''Shin-Osaka'', ''Shinjuku'']
   \<and> length (searchSuggestions suggest0 ''Shin'') \<le> 16
   \<and> normalizeText suggest0 ''   '' = []
   \<and> searchSuggestions suggest0 ''   '' = []"
proof -
  have cc: "consistent_comparator UNIV (localeCompare suggest0)"
    by (simp add: suggest0_def code_unit_compare_consistent)
  have n1: "normalizeText suggest0 ''Shin'' \<noteq> []" and n2: "normalizeText suggest0 ''   '' = []"
    by (simp_all add: suggest0_def suggest0_examples)
  note shin = suggestions_shape [OF cc, of "''Shin''"]
  note blank = suggestions_shape [OF cc, of "''   ''"]
  from shin have cat: "searchSuggestions suggest0 ''Shin'' =
           map (\<lambda>v. \<lparr>sg_value = v, sg_type = Basin\<rparr>) (basinSuggestions suggest0 ''Shin'')
           @ map (\<lambda>v. \<lparr>sg_value = v, sg_type = Station\<rparr>) (stationNameSuggestions suggest0 ''Shin'')"
    by (rule conjunct1)
  from shin have len: "length (searchSuggestions suggest0 ''Shin'') \<le> 16"
    by (elim conjE)
  from blank n2 have emp: "searchSuggestions suggest0 ''   '' = []"
    by (elim conjE) simp
  from cat have "map sg_value (searchSuggestions suggest0 ''Shin'') =
       [''Shinano'', ''Shinbashi'', ''Shinden'', ''Shingu'', ''Shinji'', ''Shinjo'', ''Shinkawa'',
        ''Shinmachi'', ''Shin-Osaka'', ''Shinjuku'']"
    by (simp add: suggest0_examples)
  with cc n1 n2 len emp show ?thesis by simp
qed

section \<open>The monthly histogram\<close>

lemma sum_list_bump:
  "m < length (xs :: int list) \<Longrightarrow> sum_list (xs[m := xs ! m + 1]) = sum_list xs + 1"
proof (induction xs arbitrary: m)
  case Nil
  then show ?case by simp
next
  case (Cons x xs)
  then show ?case by (cases m) simp_all
qed

lemma count_point_skip:
  "Date_parse (peak_time item) = None \<Longrightarrow> count_point Date_parse getMonth mc item = Inr mc"
  by (simp add: count_point_def)

lemma count_point_bump:
  "Date_parse (peak_time item) = Some t \<Longrightarrow> getMonth t < length mc \<Longrightarrow>
   count_point Date_parse getMonth mc item =
     Inr (mc[getMonth t := (mc ! getMonth t)\<lparr>count := count (mc ! getMonth t) + 1\<rparr>])"
  by (simp add: count_point_def Let_def)

lemma count_points_invariant:
  assumes "months_in_range Date_parse getMonth series" "length mc = 12"
  shows "\<exists>mc'. count_points Date_parse getMonth mc series = Inr mc'
           \<and> length mc' = 12
           \<and> map month mc' = map month mc
           \<and> (\<forall>m < 12. count (mc' ! m) =
                 count (mc ! m) + int (length (filter (in_month Date_parse getMonth m) series)))
           \<and> sum_list (map count mc') =
                 sum_list (map count mc) + int (length (filter (parses Date_parse) series))"
  using assms
proof (induction series arbitrary: mc)
  case Nil
  then show ?case by simp
next
  case (Cons item items)
  from Cons.prems(1) have rest: "months_in_range Date_parse getMonth items"
    by (simp add: months_in_range_def)
  show ?case
  proof (cases "Date_parse (peak_time item)")
    case None
    from Cons.IH [OF rest Cons.prems(2)] None show ?thesis
      by (simp add: count_point_skip in_month_def parses_def)
  next
    case (Some t)
    let ?m = "getMonth t"
    let ?mc = "mc[?m := (mc ! ?m)\<lparr>count := count (mc ! ?m) + 1\<rparr>]"
    from Cons.prems Some have lt: "?m < length mc"
      by (simp add: months_in_range_def)
    have step: "count_point Date_parse getMonth mc item = Inr ?mc"
      using Some lt by (rule count_point_bump)
    have len: "length ?mc = 12" using Cons.prems(2) by simp
    have mon: "map month ?mc = map month mc"
      using lt by (simp add: map_update list_update_same_conv)
    have cnt: "count (?mc ! m) = count (mc ! m) + (if m = ?m then 1 else 0)" if "m < 12" for m
      using that lt Cons.prems(2) by (simp add: nth_list_update)
    have "map count ?mc = (map count mc)[?m := map count mc ! ?m + 1]"
      using lt by (simp add: map_update)
    then have sum: "sum_list (map count ?mc) = sum_list (map count mc) + 1"
      using sum_list_bump [of ?m "map count mc"] lt by simp
    from Cons.IH [OF rest len] obtain mc' where
      r: "count_points Date_parse getMonth ?mc items = Inr mc'" and l: "length mc' = 12"
      and mo: "map month mc' = map month ?mc"
      and c: "\<forall>m < 12. count (mc' ! m) =
                 count (?mc ! m) + int (length (filter (in_month Date_parse getMonth m) items))"
      and s: "sum_list (map count mc') =
                 sum_list (map count ?mc) + int (length (filter (parses Date_parse) items))"
      by blast
    have c': "\<forall>m < 12. count (mc' ! m) =
                 count (mc ! m) + int (length (filter (in_month Date_parse getMonth m) (item # items)))"
    proof (intro allI impI)
      fix m :: nat assume m: "m < 12"
      from c m have "count (mc' ! m) =
          count (?mc ! m) + int (length (filter (in_month Date_parse getMonth m) items))" by blast
      with cnt [OF m] Some show "count (mc' ! m) =
          count (mc ! m) + int (length (filter (in_month Date_parse getMonth m) (item # items)))"
        by (simp add: in_month_def)
    qed
    have s': "sum_list (map count mc') =
        sum_list (map count mc) + int (length (filter (parses Date_parse) (item # items)))"
      using s sum Some by (simp add: parses_def)
    from r step have "count_points Date_parse getMonth mc (item # items) = Inr mc'" by simp
    with l mo mon c' s' show ?thesis by simp
  qed
qed

lemma initial_monthCounts_props:
  "length initial_monthCounts = 12"
  "map month initial_monthCounts = [1, 2, 3, 4, 5, 6, 7, 8, 9, 10, 11, 12]"
  "sum_list (map count initial_monthCounts) = 0"
  by (simp_all add: initial_monthCounts_def upt_rec [of _ 12] comp_def del: upt_Suc map_upt_Suc)

lemma initial_monthCounts_zero: "m < 12 \<Longrightarrow> count (initial_monthCounts ! m) = 0"
  by (simp add: initial_monthCounts_def del: upt_Suc)

text \<open>
  C3. For every series, the empty one included, the monthly projection is computed
  without error and has 12 entries for the months 1 to 12 in order; the count of each
  month is the number of points whose peak time parses to that month, whatever the
  year; every count is a non-negative integer; the counts add up to the number of
  points whose peak time parses; the empty series gives 12 zero counts. \<^verbatim>\<open>getMonth\<close> is
  taken to give an index below 12.
\<close>

theorem monthly_histogram:
  assumes "months_in_range Date_parse getMonth series"
  shows "\<exists>mc. monthlyFrequency Date_parse getMonth series = Inr mc
           \<and> length mc = 12
           \<and> map month mc = [1, 2, 3, 4, 5, 6, 7, 8, 9, 10, 11, 12]
           \<and> (\<forall>m < 12. count (mc ! m) = int (length (filter (in_month Date_parse getMonth m) series)))
           \<and> (\<forall>e \<in> set mc. 0 \<le> count e)
           \<and> sum_list (map count mc) = int (length (filter (parses Date_parse) series))
           \<and> (series = [] \<longrightarrow> map count mc = replicate 12 0)"
proof -
  from count_points_invariant [OF assms initial_monthCounts_props(1)]
  obtain mc where r: "monthlyFrequency Date_parse getMonth series = Inr mc" and l: "length mc = 12"
    and mo: "map month mc = [1, 2, 3, 4, 5, 6, 7, 8, 9, 10, 11, 12]"
    and c: "\<forall>m < 12. count (mc ! m) = int (length (filter (in_month Date_parse getMonth m) series))"
    and s: "sum_list (map count mc) = int (length (filter (parses Date_parse) series))"
    by (auto simp: monthlyFrequency_def initial_monthCounts_props initial_monthCounts_zero)
  have pos: "0 \<le> count e" if "e \<in> set mc" for e
  proof -
    from that l obtain m where "m < 12" "e = mc ! m" by (auto simp: in_set_conv_nth)
    with c show ?thesis by simp
  qed
  have z: "map count mc = replicate 12 0" if "series = []"
  proof -
    from c that have "\<forall>m < 12. count (mc ! m) = 0" by simp
    with l show ?thesis by (simp add: list_eq_iff_nth_eq)
  qed
  from r l mo c pos s z show ?thesis by (intro exI [of _ mc]) simp
qed

lemma month_of_lt: "month_of t < 12"
  unfolding month_of_def using pos_mod_bound [of 12 t] pos_mod_sign [of 12 t] by linarith

lemma month_of_range: "months_in_range parse_year_month month_of series"
  by (simp add: months_in_range_def month_of_lt)

lemma series4_histogram:
  "monthlyFrequency parse_year_month month_of series4 =
     Inr [\<lparr>month = 1, count = 1\<rparr>, \<lparr>month = 2, count = 0\<rparr>, \<lparr>month = 3, count = 0\<rparr>,
          \<lparr>month = 4, count = 0\<rparr>, \<lparr>month = 5, count = 0\<rparr>, \<lparr>month = 6, count = 0\<rparr>,
          \<lparr>month = 7, count = 2\<rparr>, \<lparr>month = 8, count = 0\<rparr>, \<lparr>month = 9, count = 0\<rparr>,
          \<lparr>month = 10, count = 1\<rparr>, \<lparr>month = 11, count = 0\<rparr>, \<lparr>month = 12, count = 0\<rparr>]"
  by code_simp

lemma series4_parsed: "length (filter (parses parse_year_month) series4) = 4"
  unfolding parses_def by code_simp

text \<open>Four of the five points of the example parse: one in January, two in July of
  different years, one in October.\<close>

theorem monthly_histogram_witness:
  "months_in_range parse_year_month month_of series4
   \<and> (\<exists>mc. monthlyFrequency parse_year_month month_of series4 = Inr mc
          \<and> map count mc = [1, 0, 0, 0, 0, 0, 2, 0, 0, 1, 0, 0]
          \<and> sum_list (map count mc) = int (length (filter (parses parse_year_month) series4)))
   \<and> length (filter (parses parse_year_month) series4) = 4
   \<and> (\<exists>mc. monthlyFrequency parse_year_month month_of [] = Inr mc \<and> map count mc = replicate 12 0)"
proof -
  from monthly_histogram [OF month_of_range, of series4]
  obtain mc where "monthlyFrequency parse_year_month month_of series4 = Inr mc"
    and "sum_list (map count mc) = int (length (filter (parses parse_year_month) series4))"
    by blast
  then have a: "\<exists>mc. monthlyFrequency parse_year_month month_of series4 = Inr mc
          \<and> map count mc = [1, 0, 0, 0, 0, 0, 2, 0, 0, 1, 0, 0]
          \<and> sum_list (map count mc) = int (length (filter (parses parse_year_month) series4))"
    by (auto simp: series4_histogram)
  from monthly_histogram [OF month_of_range, of "[]"]
  have b: "\<exists>mc. monthlyFrequency parse_year_month month_of [] = Inr mc \<and> map count mc = replicate 12 0"
    by blast
  from a b month_of_range series4_parsed show ?thesis by blast
qed

section \<open>The peak distribution\<close>

lemma isFinite_iff: "isFinite n = (\<exists>r. n = Finite r)"
  by (cases n) (simp_all add: isFinite_def)

lemma by_peak_desc_finite:
  "peak_value a = Finite x \<Longrightarrow> peak_value b = Finite y
   \<Longrightarrow> is_positive (by_peak_desc a b) = (x < y)"
  by (simp add: by_peak_desc_def is_positive_def)

lemma number_minus_self: "\<not> is_positive (number_minus n n)"
  by (cases n) (simp_all add: is_positive_def)

lemma by_peak_desc_consistent:
  "consistent_comparator {item. isFinite (peak_value item)} by_peak_desc"
  unfolding consistent_comparator_def
  by (auto simp: isFinite_iff by_peak_desc_finite)

lemma to_ranked_length: "length (to_ranked items) = length items"
  by (simp add: to_ranked_def)

lemma to_ranked_nth:
  "i < length items \<Longrightarrow> to_ranked items ! i = \<lparr>rank = int i + 1, dist_peak_value = peak_value (items ! i)\<rparr>"
  by (simp add: to_ranked_def nth_enumerate_eq)

text \<open>
  C4. The peak distribution drops the points whose peak value is not finite, sorts the
  others by descending peak value, stably (points with the same peak value keep their
  relative order), and numbers them from 1 in the sorted order; the empty series gives
  the empty list.
\<close>

theorem peak_distribution_ranking:
  "mset (sorted_finite_points series) = mset (finite_points series)
   \<and> sorted_wrt peak_ge (sorted_finite_points series)
   \<and> (\<forall>v. filter (\<lambda>item. peak_value item = v) (sorted_finite_points series)
           = filter (\<lambda>item. peak_value item = v) (finite_points series))
   \<and> length (peakDistribution series) = length (finite_points series)
   \<and> (\<forall>i < length (finite_points series).
         peakDistribution series ! i =
           \<lparr>rank = int i + 1, dist_peak_value = peak_value (sorted_finite_points series ! i)\<rparr>)
   \<and> peakDistribution [] = []"
proof -
  let ?f = "finite_points series"
  let ?s = "sorted_finite_points series"
  have s_def: "?s = array_sort by_peak_desc ?f"
    by (simp add: sorted_finite_points_def finite_points_def)
  have fin: "set ?f \<subseteq> {item. isFinite (peak_value item)}"
    by (auto simp: finite_points_def)
  have m: "mset ?s = mset ?f" by (simp add: s_def mset_array_sort)
  have s0: "sorted_wrt (\<lambda>a b. \<not> is_positive (by_peak_desc a b)) ?s"
    unfolding s_def by (rule sorted_array_sort [OF by_peak_desc_consistent fin])
  have imp: "peak_ge a b"
    if "a \<in> set ?s" "b \<in> set ?s" "\<not> is_positive (by_peak_desc a b)" for a b
  proof -
    from that fin have "isFinite (peak_value a)" "isFinite (peak_value b)"
      by (auto simp: s_def set_array_sort)
    then obtain x y where "peak_value a = Finite x" "peak_value b = Finite y"
      by (auto simp: isFinite_iff)
    with that(3) show ?thesis by (simp add: by_peak_desc_finite peak_ge_def)
  qed
  have srt: "sorted_wrt peak_ge ?s"
    by (rule sorted_wrt_mono_rel [OF imp s0])
  have stab: "filter (\<lambda>item. peak_value item = v) ?s = filter (\<lambda>item. peak_value item = v) ?f" for v
    unfolding s_def
    by (rule filter_array_sort) (simp add: by_peak_desc_def number_minus_self)
  have len: "length (peakDistribution series) = length ?f"
    by (simp add: peakDistribution_def to_ranked_length s_def length_array_sort)
  have nth: "peakDistribution series ! i = \<lparr>rank = int i + 1, dist_peak_value = peak_value (?s ! i)\<rparr>"
    if "i < length ?f" for i
    using that by (simp add: peakDistribution_def to_ranked_nth s_def length_array_sort)
  have e: "peakDistribution [] = []"
    by (simp add: peakDistribution_def to_ranked_def sorted_finite_points_def)
  from m srt stab len nth e show ?thesis by blast
qed

lemma series4_finite: "filter (\<lambda>item. isFinite (peak_value item)) series4 =
   [mk_point 1 ''2019-10-12T03:00:00'' (Finite 3), mk_point 2 ''2020-07-04T11:00:00'' (Finite 7),
              mk_point 3 ''2021-07-15T08:00:00'' (Finite 7), mk_point 4 ''2022-01-02T00:00:00'' (Finite 1)]"
  by (simp add: series4_def mk_point_def isFinite_def)

lemma by_peak_desc_mk_point: "by_peak_desc (mk_point i t (Finite a)) (mk_point j u (Finite b)) = Finite (b - a)"
  by (simp add: by_peak_desc_def mk_point_def)

lemma sorted_series4:
  "sorted_finite_points series4 =
     [mk_point 2 ''2020-07-04T11:00:00'' (Finite 7), mk_point 3 ''2021-07-15T08:00:00'' (Finite 7),
      mk_point 1 ''2019-10-12T03:00:00'' (Finite 3), mk_point 4 ''2022-01-02T00:00:00'' (Finite 1)]"
  by (simp add: sorted_finite_points_def series4_finite by_peak_desc_mk_point is_positive_def)

text \<open>The peak values 3, 7, NaN, 7, 1 give the ranks (1,7), (2,7), (3,3), (4,1), the two
  sevens in the order of the input.\<close>

theorem peak_distribution_ranking_witness:
  "(2::nat) < length (finite_points series4)
   \<and> peakDistribution series4 ! 2 = \<lparr>rank = 3, dist_peak_value = Finite 3\<rparr>
   \<and> map point_id (sorted_finite_points series4) = [2, 3, 1, 4]
   \<and> peakDistribution series4 =
       [\<lparr>rank = 1, dist_peak_value = Finite 7\<rparr>, \<lparr>rank = 2, dist_peak_value = Finite 7\<rparr>,
        \<lparr>rank = 3, dist_peak_value = Finite 3\<rparr>, \<lparr>rank = 4, dist_peak_value = Finite 1\<rparr>]
   \<and> peakDistribution [] = []"
proof -
  have len: "length (finite_points series4) = 4"
    by (simp add: finite_points_def series4_finite)
  have ids: "map point_id (sorted_finite_points series4) = [2, 3, 1, 4]"
    by (simp add: sorted_series4 mk_point_def)
  have third: "peak_value (sorted_finite_points series4 ! 2) = Finite 3"
    by (simp add: sorted_series4 mk_point_def)
  have pd: "peakDistribution series4 =
       [\<lparr>rank = 1, dist_peak_value = Finite 7\<rparr>, \<lparr>rank = 2, dist_peak_value = Finite 7\<rparr>,
        \<lparr>rank = 3, dist_peak_value = Finite 3\<rparr>, \<lparr>rank = 4, dist_peak_value = Finite 1\<rparr>]"
    by (simp add: peakDistribution_def to_ranked_def sorted_series4 mk_point_def)
  from peak_distribution_ranking [of series4]
  have nth: "\<forall>i < length (finite_points series4). peakDistribution series4 ! i =
           \<lparr>rank = int i + 1, dist_peak_value = peak_value (sorted_finite_points series4 ! i)\<rparr>"
    and emp: "peakDistribution [] = []"
    by blast+
  from nth len have "peakDistribution series4 ! 2 = \<lparr>rank = 3, dist_peak_value = Finite 3\<rparr>"
    by (simp add: third)
  with len ids pd emp show ?thesis by simp
qed

section \<open>The date range\<close>

lemma toDateOnly_nonempty: "toDateOnly v = Some d \<Longrightarrow> d \<noteq> []"
  by (auto simp: toDateOnly_def split: option.splits if_splits)

lemma or_else_Some:
  "or_else (Some a) b = (if a \<noteq> [] then Some a else b)"
  by (simp add: or_else_def truthy_def)

lemma rangeEndDate_nonempty: "rangeEndDate pg es sd = Some e \<Longrightarrow> e \<noteq> []"
  by (auto simp: rangeEndDate_def or_else_Some maxPeakDate_def dest: toDateOnly_nonempty split: if_splits)

lemma rangeStartDate_nonempty: "rangeStartDate pg es sd = Some s \<Longrightarrow> s \<noteq> []"
  by (auto simp: rangeStartDate_def or_else_Some minPeakDate_def dest: toDateOnly_nonempty split: if_splits)






lemma rangeEndDate_of_empty: "peakEndDate pg es = [] \<Longrightarrow> rangeEndDate pg es sd = maxPeakDate sd"
  by (simp add: rangeEndDate_def or_else_Some)

lemma rangeStartDate_of_empty: "peakStartDate pg es = [] \<Longrightarrow> rangeStartDate pg es sd = minPeakDate sd"
  by (simp add: rangeStartDate_def or_else_Some)














lemma events0_examples:
  "rangeEndDate station_page events0 (Some summary0) = Some ''2020-12-31''"
  "rangeStartDate station_page events0 (Some summary0) = Some ''2000-01-01''"
  "minPeakDate (Some summary0) = Some ''2000-01-01''"
  "maxPeakDate (Some summary0) = Some ''2020-12-31''"
  "''2020-12-31'' < ''2021-06-01''" "''1999-01-01'' < ''2000-01-01''"
  "\<not> ''2020-12-31'' < ''2010-01-01''" "peakEndDate station_page events0 = []"
  by code_simp+

text \<open>
  Two handlers of one render, run one after the other: the second one clamps against
  the effective start of the render, not against the start that the first one has just
  stored, and the stored range ends with its start after its end.
\<close>

lemma batched_edits_not_clamped:
  "peakDateRangeByTab
     (apply_batch station_page (Some summary0) events0 [SetStart ''2010-01-01'', SetEnd ''2005-05-05''])
     ''s:A''
   = Some \<lparr>range_start = ''2010-01-01'', range_end = ''2005-05-05''\<rparr>"
  by code_simp



lemma two_renders_example:
  "peakDateRangeByTab
     (apply_renders station_page (Some summary0) events0 [[SetStart ''2010-01-01''], [SetEnd ''2005-05-05'']])
     ''s:A''
   = Some \<lparr>range_start = ''2005-05-05'', range_end = ''2005-05-05''\<rparr>"
  by code_simp


section \<open>The ranged request\<close>

lemma eventsBasePath_nonempty: "eventsBasePath enc pg = Some b \<Longrightarrow> b \<noteq> []"
  by (auto simp: eventsBasePath_def split: option.splits if_splits)

lemma rangeRequestUrl_cases:
  assumes "eventsBasePath enc pg = Some b" "rangeStartDate pg es sd = Some s"
    "rangeEndDate pg es sd = Some e"
  shows "rangeRequestUrl enc pg es sd =
     (if shouldFetchRangeData pg es sd
      then Some \<lparr>url_path = b,
                 url_query = [(''includeRecent'', ''0''), (''peakStart'', s), (''peakEnd'', e)]
                    @ (if selectedPreset pg es \<noteq> None then [(''includeMatchedSeries'', ''1'')] else [])\<rparr>
      else None)"
  using assms eventsBasePath_nonempty [OF assms(1)] rangeStartDate_nonempty [OF assms(2)]
    rangeEndDate_nonempty [OF assms(3)]
  by (simp add: rangeRequestUrl_def Let_def)

lemma hasDateFilterChanged_known:
  assumes "rangeStartDate pg es sd = Some s" "rangeEndDate pg es sd = Some e"
  shows "hasDateFilterChanged pg es sd =
     ((minPeakDate sd \<noteq> None \<and> minPeakDate sd \<noteq> Some s)
      \<or> (maxPeakDate sd \<noteq> None \<and> maxPeakDate sd \<noteq> Some e))"
proof -
  have t: "truthy (toDateOnly v) = (toDateOnly v \<noteq> None)" for v
    by (auto simp: truthy_def toDateOnly_def split: option.splits)
  have tmin: "truthy (minPeakDate sd) = (minPeakDate sd \<noteq> None)"
    and tmax: "truthy (maxPeakDate sd) = (maxPeakDate sd \<noteq> None)"
    by (simp_all add: minPeakDate_def maxPeakDate_def t)
  have "truthy (Some s)" "truthy (Some e)"
    using rangeStartDate_nonempty [OF assms(1)] rangeEndDate_nonempty [OF assms(2)]
    by (simp_all add: truthy_def)
  with assms tmin tmax show ?thesis
    by (auto simp: hasDateFilterChanged_def)
qed

text \<open>
  A state with an effective bound but without one of the bounds of the span has a bound
  stored for the active tab. The date inputs are the only callers of the two setters
  and are rendered once the summary has given both bounds of the span, and closing a
  tab removes its range: where a bound is stored, the span is known.
\<close>

lemma bound_without_span_is_stored:
  assumes "rangeStartDate pg es sd = Some s" "rangeEndDate pg es sd = Some e"
    and "minPeakDate sd = None \<or> maxPeakDate sd = None"
  shows "\<exists>k r. activeTabKey pg = Some k \<and> peakDateRangeByTab es k = Some r
           \<and> (range_start r \<noteq> [] \<or> range_end r \<noteq> [])"
proof -
  from assms have "peakStartDate pg es \<noteq> [] \<or> peakEndDate pg es \<noteq> []"
    by (auto simp: rangeStartDate_def rangeEndDate_def or_else_Some split: if_splits)
  then show ?thesis
    by (auto simp: peakStartDate_def peakEndDate_def currentTabDateRange_def split: option.splits)
qed

text \<open>
  Each bound is compared only with a bound of the span that is known.
\<close>

lemma range_fetch_guarded:
  assumes base: "eventsBasePath enc pg = Some b"
    and rs: "rangeStartDate pg es sd = Some s" and re: "rangeEndDate pg es sd = Some e"
  shows "(rangeRequestUrl enc pg es sd \<noteq> None) =
           (selectedPreset pg es \<noteq> None
            \<or> (minPeakDate sd \<noteq> None \<and> minPeakDate sd \<noteq> Some s)
            \<or> (maxPeakDate sd \<noteq> None \<and> maxPeakDate sd \<noteq> Some e))"
  by (simp add: rangeRequestUrl_cases [OF base rs re] shouldFetchRangeData_def
      hasDateFilterChanged_known [OF rs re])

lemma ranged_examples:
  "eventsBasePath id station_page = Some ''/api/stations/A/events''"
  "selectedPreset station_page events_ranged = None"
  by code_simp+

lemma preset_examples:
  "rangeStartDate station_page events_preset (Some summary0) = Some ''2000-01-01''"
  "rangeEndDate station_page events_preset (Some summary0) = Some ''2020-12-31''"
  "selectedPreset station_page events_preset = Some timeline_all"
  "selectedPreset station_page events0 = None"
  "rangeStartDate station_page events_ranged (Some summary0) = Some ''2010-01-01''"
  "rangeEndDate station_page events_ranged (Some summary0) = Some ''2011-01-01''"
  by code_simp+

text \<open>
  C7. For every selection and range state in which the base path and both effective
  bounds are known, the default span of the selection being known, a ranged request is
  made (the request URL is not null) if and only if a chart preset is active or the
  effective range differs from the default span; the request is made on the base path
  for the two effective bounds and asks for the matched series
  (\<open>includeMatchedSeries=1\<close>) exactly when a chart preset is active.
\<close>

theorem range_fetch_condition:
  assumes base: "eventsBasePath enc pg = Some b"
    and rs: "rangeStartDate pg es sd = Some s" and re: "rangeEndDate pg es sd = Some e"
    and span: "minPeakDate sd \<noteq> None" "maxPeakDate sd \<noteq> None"
  shows "(rangeRequestUrl enc pg es sd \<noteq> None) =
           (selectedPreset pg es \<noteq> None \<or> (Some s, Some e) \<noteq> (minPeakDate sd, maxPeakDate sd))
       \<and> (\<forall>u. rangeRequestUrl enc pg es sd = Some u \<longrightarrow>
              url_path u = b
              \<and> map_of (url_query u) ''peakStart'' = Some s
              \<and> map_of (url_query u) ''peakEnd'' = Some e
              \<and> ((''includeMatchedSeries'', ''1'') \<in> set (url_query u)) = (selectedPreset pg es \<noteq> None))"
proof -
  note url = rangeRequestUrl_cases [OF base rs re]
  have a: "(rangeRequestUrl enc pg es sd \<noteq> None) =
           (selectedPreset pg es \<noteq> None \<or> (Some s, Some e) \<noteq> (minPeakDate sd, maxPeakDate sd))"
    using span range_fetch_guarded [OF base rs re] by auto
  have c: "url_path u = b
              \<and> map_of (url_query u) ''peakStart'' = Some s
              \<and> map_of (url_query u) ''peakEnd'' = Some e
              \<and> ((''includeMatchedSeries'', ''1'') \<in> set (url_query u)) = (selectedPreset pg es \<noteq> None)"
    if "rangeRequestUrl enc pg es sd = Some u" for u
    using that by (auto simp: url split: if_splits)
  from a c show ?thesis by blast
qed

text \<open>No request over the whole span without a preset; a request with the series once a
  preset is chosen; a request without the series for a narrower range.\<close>

theorem range_fetch_condition_witness:
  "eventsBasePath id station_page = Some ''/api/stations/A/events''
   \<and> rangeStartDate station_page events0 (Some summary0) = Some ''2000-01-01''
   \<and> rangeEndDate station_page events0 (Some summary0) = Some ''2020-12-31''
   \<and> minPeakDate (Some summary0) = Some ''2000-01-01''
   \<and> maxPeakDate (Some summary0) = Some ''2020-12-31''
   \<and> rangeRequestUrl id station_page events0 (Some summary0) = None
   \<and> (\<exists>u. rangeRequestUrl id station_page events_preset (Some summary0) = Some u
         \<and> (''includeMatchedSeries'', ''1'') \<in> set (url_query u))
   \<and> (\<exists>u. rangeRequestUrl id station_page events_ranged (Some summary0) = Some u
         \<and> url_path u = ''/api/stations/A/events''
         \<and> map_of (url_query u) ''peakStart'' = Some ''2010-01-01''
         \<and> map_of (url_query u) ''peakEnd'' = Some ''2011-01-01''
         \<and> (''includeMatchedSeries'', ''1'') \<notin> set (url_query u))"
proof -
  have mn: "minPeakDate (Some summary0) \<noteq> None" and mx: "maxPeakDate (Some summary0) \<noteq> None"
    by (simp_all add: events0_examples)
  note w0 = range_fetch_condition [OF ranged_examples(1) events0_examples(2) events0_examples(1) mn mx]
  note w1 = range_fetch_condition [OF ranged_examples(1) preset_examples(1) preset_examples(2) mn mx]
  note w2 = range_fetch_condition [OF ranged_examples(1) preset_examples(5) preset_examples(6) mn mx]
  have n0: "rangeRequestUrl id station_page events0 (Some summary0) = None"
    using w0 [THEN conjunct1] by (simp add: preset_examples(4) events0_examples)
  have "rangeRequestUrl id station_page events_preset (Some summary0) \<noteq> None"
    using w1 [THEN conjunct1] by (simp add: preset_examples(3))
  then obtain u1 where u1: "rangeRequestUrl id station_page events_preset (Some summary0) = Some u1"
    by blast
  have "rangeRequestUrl id station_page events_ranged (Some summary0) \<noteq> None"
    using w2 [THEN conjunct1] by (simp add: events0_examples)
  then obtain u2 where u2: "rangeRequestUrl id station_page events_ranged (Some summary0) = Some u2"
    by blast
  have s1: "(''includeMatchedSeries'', ''1'') \<in> set (url_query u1)"
    using w1 [THEN conjunct2] u1 by (simp add: preset_examples(3))
  have s2: "url_path u2 = ''/api/stations/A/events''
         \<and> map_of (url_query u2) ''peakStart'' = Some ''2010-01-01''
         \<and> map_of (url_query u2) ''peakEnd'' = Some ''2011-01-01''
         \<and> (''includeMatchedSeries'', ''1'') \<notin> set (url_query u2)"
    using w2 [THEN conjunct2] u2 by (simp add: ranged_examples(2))
  from n0 u1 u2 s1 s2 ranged_examples(1) events0_examples(1,2,3,4) show ?thesis by blast
qed

section \<open>The series is left as it was fetched\<close>

lemma read_points_valid: "read_points h r = Some xs \<Longrightarrow> r < length h \<and> h ! r = PointArray xs"
  by (auto simp: read_points_def split: if_splits array_object.splits)

lemma peakDistribution_ref_result:
  assumes "read_points h ms = Some series"
  shows "peakDistribution_ref ms h =
     Some (Suc (length h),
           h @ [PointArray (sorted_finite_points series), RankArray (peakDistribution series)])"
  using assms
  by (simp add: peakDistribution_ref_def filter_ref_def sort_ref_def map_ranked_ref_def alloc_def
      read_points_def nth_append sorted_finite_points_def peakDistribution_def)

lemma unchanged_below_append: "unchanged_below h (h @ xs)"
  by (simp add: unchanged_below_def nth_append)

lemma unchanged_below_trans: "unchanged_below h h1 \<Longrightarrow> unchanged_below h1 h2 \<Longrightarrow> unchanged_below h h2"
  by (auto simp: unchanged_below_def)

lemma read_points_unchanged:
  "unchanged_below h h' \<Longrightarrow> read_points h r = Some xs \<Longrightarrow> read_points h' r = Some xs"
  by (auto simp: unchanged_below_def read_points_def split: if_splits)

lemma derive_times_frame:
  "read_points h ms = Some series \<Longrightarrow>
   \<exists>h'. derive_times n ms h = Some h' \<and> unchanged_below h h'"
proof (induction n arbitrary: h)
  case 0
  then show ?case by (simp add: unchanged_below_def)
next
  case (Suc n)
  let ?h1 = "h @ [PointArray (sorted_finite_points series), RankArray (peakDistribution series)]"
  have u: "unchanged_below h ?h1" by (rule unchanged_below_append)
  from read_points_unchanged [OF u Suc.prems] have "read_points ?h1 ms = Some series" .
  from Suc.IH [OF this] obtain h' where "derive_times n ms ?h1 = Some h'" "unchanged_below ?h1 h'"
    by blast
  with u peakDistribution_ref_result [OF Suc.prems] show ?case
    by (auto intro: unchanged_below_trans)
qed

text \<open>Sorting in place does reorder the array it is called on.\<close>

lemma heap0_series: "read_points heap0 0 = Some series4"
  by (simp add: heap0_def read_points_def)

lemma sort_in_place_reorders:
  "sort_ref by_peak_desc 0 [PointArray [mk_point 1 ''a'' (Finite 3), mk_point 2 ''b'' (Finite 7)]]
     = Some (0, [PointArray [mk_point 2 ''b'' (Finite 7), mk_point 1 ''a'' (Finite 3)]])"
  by (simp add: sort_ref_def read_points_def by_peak_desc_mk_point is_positive_def)

text \<open>
  C10. Deriving the peak distribution does not change the series it is derived from:
  the result is a new array, every array that was in the store before is unchanged, and
  reading \<open>matchedSeries\<close>, or \<open>chartPoints\<close>, which is the same reference, gives the
  points in the order in which they were fetched; this holds however often the
  distribution is derived.
\<close>

theorem distribution_leaves_series:
  assumes "read_points h series_ref = Some series"
  shows "\<exists>r h'. peakDistribution_ref series_ref h = Some (r, h')
           \<and> r < length h' \<and> h' ! r = RankArray (peakDistribution series)
           \<and> r \<noteq> series_ref
           \<and> unchanged_below h h'
           \<and> read_points h' series_ref = Some series
           \<and> read_points h' (chartPoints_ref series_ref) = Some series
           \<and> (\<exists>h''. derive_times n series_ref h = Some h''
                  \<and> unchanged_below h h''
                  \<and> read_points h'' series_ref = Some series
                  \<and> read_points h'' (chartPoints_ref series_ref) = Some series)"
proof -
  let ?h1 = "h @ [PointArray (sorted_finite_points series), RankArray (peakDistribution series)]"
  note res = peakDistribution_ref_result [OF assms]
  have u: "unchanged_below h ?h1" by (rule unchanged_below_append)
  have rd: "read_points ?h1 series_ref = Some series"
    by (rule read_points_unchanged [OF u assms])
  from read_points_valid [OF assms] have ne: "Suc (length h) \<noteq> series_ref" by simp
  from derive_times_frame [OF assms, of n] obtain h'' where
    d: "derive_times n series_ref h = Some h''" and u': "unchanged_below h h''" by blast
  from read_points_unchanged [OF u' assms] have rd': "read_points h'' series_ref = Some series" .
  have cell: "?h1 ! Suc (length h) = RankArray (peakDistribution series)"
    by (simp add: nth_append)
  from res u rd ne d u' rd' cell show ?thesis
    by (simp add: chartPoints_ref_def)
qed

text \<open>Deriving the distribution once, and three times, from the example series.\<close>

theorem distribution_leaves_series_witness:
  "read_points heap0 0 = Some series4
   \<and> (\<exists>r h'. peakDistribution_ref 0 heap0 = Some (r, h')
          \<and> h' ! r = RankArray (peakDistribution series4)
          \<and> read_points h' 0 = Some series4
          \<and> read_points h' (chartPoints_ref 0) = Some series4)
   \<and> (\<exists>h''. derive_times 3 0 heap0 = Some h'' \<and> read_points h'' 0 = Some series4)"
proof -
  from distribution_leaves_series [OF heap0_series, of 3]
  obtain r h' h'' where "peakDistribution_ref 0 heap0 = Some (r, h')"
    "h' ! r = RankArray (peakDistribution series4)"
    "read_points h' 0 = Some series4" "read_points h' (chartPoints_ref 0) = Some series4"
    "derive_times 3 0 heap0 = Some h''" "read_points h'' 0 = Some series4"
    by blast
  with heap0_series show ?thesis by blast
qed

end
